theory Spec2Isabelle
  imports Complex_Main "HOL-Library.Word"
begin

unbundle bit_operations_syntax

section \<open>Data model of the voxel collider\<close>

text \<open>
  The collider of \<^verbatim>\<open>voxel-collider.ts\<close>. Node and leaf words are 32-bit
  machine words. Voxel indices, extents, \<^verbatim>\<open>leafSize\<close> and
  \<^verbatim>\<open>treeDepth\<close> are JavaScript numbers that hold integers; they are modelled as
  \<open>int\<close>, and every place where the source converts one to a 32-bit integer
  (\<^verbatim>\<open>>>>\<close>, \<^verbatim>\<open>&\<close>) is written as \<open>word_of_int\<close>.
  World coordinates, radii and push-out components are JavaScript doubles; they are
  modelled as \<open>real\<close>, so rounding, NaN, infinities and signed zero are outside the
  model.
\<close>

type_synonym u32 = "32 word"

text \<open>The interface \<^verbatim>\<open>PushOut { x, y, z }\<close>.\<close>

record PushOut =
  pushX :: real
  pushY :: real
  pushZ :: real

text \<open>
  The private fields of class \<^verbatim>\<open>VoxelCollider\<close>. The field
  \<^verbatim>\<open>_constraintNormals\<close> is a fixed array of three \<^verbatim>\<open>PushOut\<close> objects.
\<close>

record VoxelCollider =
  gridMinX :: real
  gridMinY :: real
  gridMinZ :: real
  numVoxelsX :: int
  numVoxelsY :: int
  numVoxelsZ :: int
  voxelResolution :: real
  leafSize :: int
  treeDepth :: int
  nodes :: "u32 list"
  leafData :: "u32 list"
  push_scratch :: PushOut
  constraintNormals :: "PushOut \<times> PushOut \<times> PushOut"

definition SOLID_LEAF_MARKER :: u32 where
  "SOLID_LEAF_MARKER = 0xFF000000"

definition PENETRATION_EPSILON :: real where
  "PENETRATION_EPSILON = 1 / 10000"

text \<open>
  \<^verbatim>\<open>popcount\<close>: the source's branch-free bit count. Its intermediate values
  stay below \<open>2 ^ 53\<close> and the final \<^verbatim>\<open>>>> 24\<close> reduces modulo \<open>2 ^ 32\<close>,
  which is what the word operations compute.
\<close>

definition popcount :: "u32 \<Rightarrow> u32" where
  "popcount n0 =
     (let n1 = n0 - (drop_bit 1 n0 AND 0x55555555);
          n2 = (n1 AND 0x33333333) + (drop_bit 2 n1 AND 0x33333333)
      in drop_bit 24 (((n2 + drop_bit 4 n2) AND 0x0F0F0F0F) * 0x01010101))"

text \<open>
  Reading a \<^verbatim>\<open>Uint32Array\<close> as \<^verbatim>\<open>arr[i] >>> 0\<close>: an index past the end
  yields \<^verbatim>\<open>undefined\<close>, which \<^verbatim>\<open>>>> 0\<close> turns into 0.
\<close>

definition u32_at :: "u32 list \<Rightarrow> nat \<Rightarrow> u32" where
  "u32_at arr i = (if i < length arr then arr ! i else 0)"

section \<open>Octree traversal\<close>

text \<open>\<^verbatim>\<open>checkLeafByIndex(node, ix, iy, iz)\<close>.\<close>

definition checkLeafByIndex :: "u32 list \<Rightarrow> u32 \<Rightarrow> int \<Rightarrow> int \<Rightarrow> int \<Rightarrow> bool" where
  "checkLeafByIndex ld node ix iy iz =
     (let leafDataIndex = unat (node AND 0x00FFFFFF);
          vx = unat ((word_of_int ix :: u32) AND 3);
          vy = unat ((word_of_int iy :: u32) AND 3);
          vz = unat ((word_of_int iz :: u32) AND 3);
          bitIndex = vz * 16 + vy * 4 + vx
      in if bitIndex < 32
         then drop_bit bitIndex (u32_at ld (leafDataIndex * 2)) AND 1 = 1
         else drop_bit (bitIndex - 32) (u32_at ld (leafDataIndex * 2 + 1)) AND 1 = 1)"

text \<open>
  \<^verbatim>\<open>Math.floor(ix / leafSize)\<close>. With \<^verbatim>\<open>leafSize = 0\<close> the quotient is
  infinite or NaN, and every later use (\<^verbatim>\<open>blockX >>> level\<close>) converts that to 0.
\<close>

definition blockCoord :: "int \<Rightarrow> int \<Rightarrow> int" where
  "blockCoord i ls = (if ls = 0 then 0 else i div ls)"

text \<open>
  The descent loop of \<^verbatim>\<open>isVoxelSolid\<close> together with the leaf-level code after
  it: \<open>level\<close> is the loop variable, \<open>nodeIndex\<close> the current node. The shift
  \<^verbatim>\<open>blockX >>> level\<close> converts \<^verbatim>\<open>blockX\<close> to an unsigned 32-bit integer and
  uses the low five bits of \<^verbatim>\<open>level\<close> as the shift count.
\<close>

function traverse ::
  "u32 list \<Rightarrow> u32 list \<Rightarrow> int \<times> int \<times> int \<Rightarrow> int \<times> int \<times> int \<Rightarrow> int \<Rightarrow> nat \<Rightarrow> bool" where
  "traverse ns ld (blockX, blockY, blockZ) (ix, iy, iz) level nodeIndex =
     (if level \<ge> 0 then
        (let node = u32_at ns nodeIndex in
         if node = SOLID_LEAF_MARKER then True
         else
           (let childMask = drop_bit 24 node AND 0xFF in
            if childMask = 0 then checkLeafByIndex ld node ix iy iz
            else
              (let bitX = drop_bit (nat (level mod 32)) (word_of_int blockX :: u32) AND 1;
                   bitY = drop_bit (nat (level mod 32)) (word_of_int blockY :: u32) AND 1;
                   bitZ = drop_bit (nat (level mod 32)) (word_of_int blockZ :: u32) AND 1;
                   octant = unat (push_bit 2 bitZ OR push_bit 1 bitY OR bitX)
               in if childMask AND push_bit octant 1 = 0 then False
                  else
                    (let baseOffset = node AND 0x00FFFFFF;
                         prefix = push_bit octant 1 - 1;
                         childOffset = popcount (childMask AND prefix)
                     in traverse ns ld (blockX, blockY, blockZ) (ix, iy, iz) (level - 1)
                          (unat baseOffset + unat childOffset)))))
      else
        (let node = u32_at ns nodeIndex in
         if node = SOLID_LEAF_MARKER then True
         else checkLeafByIndex ld node ix iy iz))"
  by pat_completeness auto
termination
  by (relation "measure (\<lambda>(ns, ld, b, i, level, nodeIndex). nat (level + 1))") auto

text \<open>\<^verbatim>\<open>isVoxelSolid(ix, iy, iz)\<close>.\<close>

definition isVoxelSolid :: "VoxelCollider \<Rightarrow> int \<Rightarrow> int \<Rightarrow> int \<Rightarrow> bool" where
  "isVoxelSolid c ix iy iz =
     (if nodes c = [] \<or> ix < 0 \<or> iy < 0 \<or> iz < 0 \<or>
         ix \<ge> numVoxelsX c \<or> iy \<ge> numVoxelsY c \<or> iz \<ge> numVoxelsZ c
      then False
      else traverse (nodes c) (leafData c)
             (blockCoord ix (leafSize c), blockCoord iy (leafSize c), blockCoord iz (leafSize c))
             (ix, iy, iz) (treeDepth c - 1) 0)"

declare traverse.simps [simp del]

section \<open>Point query\<close>

text \<open>\<^verbatim>\<open>queryPoint(x, y, z)\<close>.\<close>

definition queryPoint :: "VoxelCollider \<Rightarrow> real \<Rightarrow> real \<Rightarrow> real \<Rightarrow> bool" where
  "queryPoint c x y z =
     (let ix = \<lfloor>(x - gridMinX c) / voxelResolution c\<rfloor>;
          iy = \<lfloor>(y - gridMinY c) / voxelResolution c\<rfloor>;
          iz = \<lfloor>(z - gridMinZ c) / voxelResolution c\<rfloor>
      in isVoxelSolid c ix iy iz)"

section \<open>Deepest-penetration resolvers\<close>

text \<open>
  The local variables \<^verbatim>\<open>bestPushX\<close>, \<^verbatim>\<open>bestPushY\<close>, \<^verbatim>\<open>bestPushZ\<close>,
  \<^verbatim>\<open>bestPenetration\<close> and \<^verbatim>\<open>found\<close> of the two resolvers.
\<close>

record BestPush =
  bestPushX :: real
  bestPushY :: real
  bestPushZ :: real
  bestPenetration :: real
  found :: bool

definition initialBest :: BestPush where
  "initialBest = \<lparr>bestPushX = 0, bestPushY = 0, bestPushZ = 0,
                   bestPenetration = PENETRATION_EPSILON, found = False\<rparr>"

text \<open>
  The body of the innermost loop of \<^verbatim>\<open>resolveDeepestPenetration\<close> up to the
  comparison with \<^verbatim>\<open>bestPenetration\<close>: \<open>None\<close> when the iteration ends in
  \<^verbatim>\<open>continue\<close>, otherwise the values of \<^verbatim>\<open>px\<close>, \<^verbatim>\<open>py\<close>, \<^verbatim>\<open>pz\<close>
  and \<^verbatim>\<open>penetration\<close>.
\<close>

definition sphereVoxelPush ::
  "VoxelCollider \<Rightarrow> real \<Rightarrow> real \<Rightarrow> real \<Rightarrow> real \<Rightarrow> int \<Rightarrow> int \<Rightarrow> int
     \<Rightarrow> (real \<times> real \<times> real \<times> real) option" where
  "sphereVoxelPush c cx cy cz radius ix iy iz =
     (if \<not> isVoxelSolid c ix iy iz then None
      else
        (let radiusSq = radius * radius;
             vMinX = gridMinX c + real_of_int ix * voxelResolution c;
             vMinY = gridMinY c + real_of_int iy * voxelResolution c;
             vMinZ = gridMinZ c + real_of_int iz * voxelResolution c;
             vMaxX = vMinX + voxelResolution c;
             vMaxY = vMinY + voxelResolution c;
             vMaxZ = vMinZ + voxelResolution c;
             nearX = max vMinX (min cx vMaxX);
             nearY = max vMinY (min cy vMaxY);
             nearZ = max vMinZ (min cz vMaxZ);
             dx = cx - nearX;
             dy = cy - nearY;
             dz = cz - nearZ;
             distSq = dx * dx + dy * dy + dz * dz
         in if distSq \<ge> radiusSq then None
            else if distSq > 1 / 10 ^ 12 then
              (let dist = sqrt distSq;
                   penetration = radius - dist;
                   invDist = 1 / dist
               in Some (dx * invDist * penetration, dy * invDist * penetration,
                        dz * invDist * penetration, penetration))
            else
              (let distNegX = cx - vMinX;
                   distPosX = vMaxX - cx;
                   distNegY = cy - vMinY;
                   distPosY = vMaxY - cy;
                   distNegZ = cz - vMinZ;
                   distPosZ = vMaxZ - cz;
                   escapeX = (if distNegX < distPosX then - (distNegX + radius) else distPosX + radius);
                   escapeY = (if distNegY < distPosY then - (distNegY + radius) else distPosY + radius);
                   escapeZ = (if distNegZ < distPosZ then - (distNegZ + radius) else distPosZ + radius);
                   absX = \<bar>escapeX\<bar>;
                   absY = \<bar>escapeY\<bar>;
                   absZ = \<bar>escapeZ\<bar>
               in if absX \<le> absY \<and> absX \<le> absZ then Some (escapeX, 0, 0, absX)
                  else if absY \<le> absZ then Some (0, escapeY, 0, absY)
                  else Some (0, 0, escapeZ, absZ))))"

text \<open>The end of the loop body: keep the candidate when it is deeper than the best so far.\<close>

definition keepDeepest :: "(real \<times> real \<times> real \<times> real) option \<Rightarrow> BestPush \<Rightarrow> BestPush" where
  "keepDeepest cand best =
     (case cand of
        None \<Rightarrow> best
      | Some (px, py, pz, penetration) \<Rightarrow>
          if penetration > bestPenetration best
          then \<lparr>bestPushX = px, bestPushY = py, bestPushZ = pz,
                bestPenetration = penetration, found = True\<rparr>
          else best)"

text \<open>
  \<^verbatim>\<open>resolveDeepestPenetration(cx, cy, cz, radius)\<close>: the three nested loops run
  over \<^verbatim>\<open>iz\<close>, \<^verbatim>\<open>iy\<close>, \<^verbatim>\<open>ix\<close> in increasing order; the result is the
  returned flag and the collider, whose \<^verbatim>\<open>_push\<close> is overwritten when a voxel was found.
\<close>

definition resolveDeepestPenetration ::
  "VoxelCollider \<Rightarrow> real \<Rightarrow> real \<Rightarrow> real \<Rightarrow> real \<Rightarrow> bool \<times> VoxelCollider" where
  "resolveDeepestPenetration c cx cy cz radius =
     (let ixMin = \<lfloor>(cx - radius - gridMinX c) / voxelResolution c\<rfloor>;
          iyMin = \<lfloor>(cy - radius - gridMinY c) / voxelResolution c\<rfloor>;
          izMin = \<lfloor>(cz - radius - gridMinZ c) / voxelResolution c\<rfloor>;
          ixMax = \<lfloor>(cx + radius - gridMinX c) / voxelResolution c\<rfloor>;
          iyMax = \<lfloor>(cy + radius - gridMinY c) / voxelResolution c\<rfloor>;
          izMax = \<lfloor>(cz + radius - gridMinZ c) / voxelResolution c\<rfloor>;
          best = fold (\<lambda>iz. fold (\<lambda>iy. fold (\<lambda>ix.
                   keepDeepest (sphereVoxelPush c cx cy cz radius ix iy iz))
                   [ixMin..ixMax]) [iyMin..iyMax]) [izMin..izMax] initialBest
      in (found best,
          if found best
          then c\<lparr>push_scratch := \<lparr>pushX = bestPushX best, pushY = bestPushY best,
                                   pushZ = bestPushZ best\<rparr>\<rparr>
          else c))"

text \<open>The loop body of \<^verbatim>\<open>resolveDeepestPenetrationCapsule\<close>.\<close>

definition capsuleVoxelPush ::
  "VoxelCollider \<Rightarrow> real \<Rightarrow> real \<Rightarrow> real \<Rightarrow> real \<Rightarrow> real \<Rightarrow> int \<Rightarrow> int \<Rightarrow> int
     \<Rightarrow> (real \<times> real \<times> real \<times> real) option" where
  "capsuleVoxelPush c cx cy cz halfHeight radius ix iy iz =
     (if \<not> isVoxelSolid c ix iy iz then None
      else
        (let radiusSq = radius * radius;
             segBottomY = cy - halfHeight;
             segTopY = cy + halfHeight;
             vMinX = gridMinX c + real_of_int ix * voxelResolution c;
             vMinY = gridMinY c + real_of_int iy * voxelResolution c;
             vMinZ = gridMinZ c + real_of_int iz * voxelResolution c;
             vMaxX = vMinX + voxelResolution c;
             vMaxY = vMinY + voxelResolution c;
             vMaxZ = vMinZ + voxelResolution c;
             segY = (if segTopY < vMinY then segTopY
                     else if segBottomY > vMaxY then segBottomY
                     else (let aabbCenterY = (vMinY + vMaxY) * (1 / 2)
                           in max segBottomY (min segTopY aabbCenterY)));
             nearX = max vMinX (min cx vMaxX);
             nearY = max vMinY (min segY vMaxY);
             nearZ = max vMinZ (min cz vMaxZ);
             dx = cx - nearX;
             dy = segY - nearY;
             dz = cz - nearZ;
             distSq = dx * dx + dy * dy + dz * dz
         in if distSq \<ge> radiusSq then None
            else if distSq > 1 / 10 ^ 12 then
              (let dist = sqrt distSq;
                   penetration = radius - dist;
                   invDist = 1 / dist
               in Some (dx * invDist * penetration, dy * invDist * penetration,
                        dz * invDist * penetration, penetration))
            else
              (let distNegX = cx - vMinX;
                   distPosX = vMaxX - cx;
                   distNegY = segY - vMinY;
                   distPosY = vMaxY - segY;
                   distNegZ = cz - vMinZ;
                   distPosZ = vMaxZ - cz;
                   escapeX = (if distNegX < distPosX then - (distNegX + radius) else distPosX + radius);
                   escapeY = (if distNegY < distPosY then - (distNegY + radius) else distPosY + radius);
                   escapeZ = (if distNegZ < distPosZ then - (distNegZ + radius) else distPosZ + radius);
                   absX = \<bar>escapeX\<bar>;
                   absY = \<bar>escapeY\<bar>;
                   absZ = \<bar>escapeZ\<bar>
               in if absX \<le> absY \<and> absX \<le> absZ then Some (escapeX, 0, 0, absX)
                  else if absY \<le> absZ then Some (0, escapeY, 0, absY)
                  else Some (0, 0, escapeZ, absZ))))"

text \<open>\<^verbatim>\<open>resolveDeepestPenetrationCapsule(cx, cy, cz, halfHeight, radius)\<close>.\<close>

definition resolveDeepestPenetrationCapsule ::
  "VoxelCollider \<Rightarrow> real \<Rightarrow> real \<Rightarrow> real \<Rightarrow> real \<Rightarrow> real \<Rightarrow> bool \<times> VoxelCollider" where
  "resolveDeepestPenetrationCapsule c cx cy cz halfHeight radius =
     (let segBottomY = cy - halfHeight;
          segTopY = cy + halfHeight;
          ixMin = \<lfloor>(cx - radius - gridMinX c) / voxelResolution c\<rfloor>;
          iyMin = \<lfloor>(segBottomY - radius - gridMinY c) / voxelResolution c\<rfloor>;
          izMin = \<lfloor>(cz - radius - gridMinZ c) / voxelResolution c\<rfloor>;
          ixMax = \<lfloor>(cx + radius - gridMinX c) / voxelResolution c\<rfloor>;
          iyMax = \<lfloor>(segTopY + radius - gridMinY c) / voxelResolution c\<rfloor>;
          izMax = \<lfloor>(cz + radius - gridMinZ c) / voxelResolution c\<rfloor>;
          best = fold (\<lambda>iz. fold (\<lambda>iy. fold (\<lambda>ix.
                   keepDeepest (capsuleVoxelPush c cx cy cz halfHeight radius ix iy iz))
                   [ixMin..ixMax]) [iyMin..iyMax]) [izMin..izMax] initialBest
      in (found best,
          if found best
          then c\<lparr>push_scratch := \<lparr>pushX = bestPushX best, pushY = bestPushY best,
                                   pushZ = bestPushZ best\<rparr>\<rparr>
          else c))"

section \<open>Iterative sphere and capsule queries\<close>

definition maxIterations :: nat where
  "maxIterations = 4"

text \<open>
  The local variables of \<^verbatim>\<open>querySphere\<close> and \<^verbatim>\<open>queryCapsule\<close> that live
  across loop iterations.
\<close>

record QueryState =
  resolvedX :: real
  resolvedY :: real
  resolvedZ :: real
  totalPushX :: real
  totalPushY :: real
  totalPushZ :: real
  hadCollision :: bool
  numNormals :: nat

text \<open>
  \<^verbatim>\<open>normals[i]\<close> on the three-element array \<^verbatim>\<open>_constraintNormals\<close>. The
  source reads it for \<^verbatim>\<open>i < numNormals\<close> and writes it at \<^verbatim>\<open>numNormals\<close> only
  under the test \<^verbatim>\<open>numNormals < 3\<close>, so the index is 0, 1 or 2.
\<close>

definition normalAt :: "PushOut \<times> PushOut \<times> PushOut \<Rightarrow> nat \<Rightarrow> PushOut" where
  "normalAt normals i =
     (case normals of (n0, n1, n2) \<Rightarrow> if i = 0 then n0 else if i = 1 then n1 else n2)"

definition normalStore ::
  "PushOut \<times> PushOut \<times> PushOut \<Rightarrow> nat \<Rightarrow> PushOut \<Rightarrow> PushOut \<times> PushOut \<times> PushOut" where
  "normalStore normals i v =
     (case normals of (n0, n1, n2) \<Rightarrow>
        if i = 0 then (v, n1, n2) else if i = 1 then (n0, v, n2) else (n0, n1, v))"

text \<open>
  The inner loop \<^verbatim>\<open>for (let i = 0; i < numNormals; i++)\<close> that projects the push
  \<^verbatim>\<open>(px, py, pz)\<close> against the recorded normals.
\<close>

definition projectOut ::
  "PushOut \<times> PushOut \<times> PushOut \<Rightarrow> nat \<Rightarrow> real \<times> real \<times> real \<Rightarrow> real \<times> real \<times> real" where
  "projectOut normals n p =
     fold (\<lambda>i (px, py, pz).
             (let nrm = normalAt normals i;
                  dot = px * pushX nrm + py * pushY nrm + pz * pushZ nrm
              in if dot < 0
                 then (px - dot * pushX nrm, py - dot * pushY nrm, pz - dot * pushZ nrm)
                 else (px, py, pz)))
          [0..<n] p"

text \<open>
  The part of one loop iteration after the resolver has returned true: \<open>c\<close> is the
  collider with the resolver's \<^verbatim>\<open>_push\<close>, \<open>st\<close> the state before the iteration.
  Both queries share this text in the source.
\<close>

definition applyPush :: "VoxelCollider \<Rightarrow> QueryState \<Rightarrow> VoxelCollider \<times> QueryState" where
  "applyPush c st =
     (let push = push_scratch c;
          (px, py, pz) = projectOut (constraintNormals c) (numNormals st)
                           (pushX push, pushY push, pushZ push);
          len = sqrt (pushX push * pushX push + pushY push * pushY push + pushZ push * pushZ push);
          store = (len > PENETRATION_EPSILON \<and> numNormals st < 3);
          invLen = 1 / len;
          c' = (if store
                then c\<lparr>constraintNormals :=
                         normalStore (constraintNormals c) (numNormals st)
                           \<lparr>pushX = pushX push * invLen, pushY = pushY push * invLen,
                            pushZ = pushZ push * invLen\<rparr>\<rparr>
                else c)
      in (c', \<lparr>resolvedX = resolvedX st + px, resolvedY = resolvedY st + py,
                resolvedZ = resolvedZ st + pz,
                totalPushX = totalPushX st + px, totalPushY = totalPushY st + py,
                totalPushZ = totalPushZ st + pz,
                hadCollision = True,
                numNormals = (if store then numNormals st + 1 else numNormals st)\<rparr>))"

text \<open>The loop \<^verbatim>\<open>for (let iter = 0; iter < maxIterations; iter++)\<close> of \<^verbatim>\<open>querySphere\<close>.\<close>

function querySphereLoop ::
  "real \<Rightarrow> nat \<Rightarrow> VoxelCollider \<Rightarrow> QueryState \<Rightarrow> VoxelCollider \<times> QueryState" where
  "querySphereLoop radius iter c st =
     (if iter < maxIterations then
        (let r = resolveDeepestPenetration c (resolvedX st) (resolvedY st) (resolvedZ st) radius
         in if \<not> fst r then (snd r, st)
            else (let (c', st') = applyPush (snd r) st
                  in querySphereLoop radius (iter + 1) c' st'))
      else (c, st))"
  by pat_completeness auto
termination
  by (relation "measure (\<lambda>(radius, iter, c, st). maxIterations - iter)") auto

definition initialState :: "real \<Rightarrow> real \<Rightarrow> real \<Rightarrow> QueryState" where
  "initialState cx cy cz =
     \<lparr>resolvedX = cx, resolvedY = cy, resolvedZ = cz,
      totalPushX = 0, totalPushY = 0, totalPushZ = 0,
      hadCollision = False, numNormals = 0\<rparr>"

text \<open>
  The code after the loop: the significance test and the conditional write to
  \<^verbatim>\<open>out\<close>. The result is the returned flag, the collider and the caller's
  \<^verbatim>\<open>out\<close> object after the call.
\<close>

definition finishQuery ::
  "VoxelCollider \<times> QueryState \<Rightarrow> PushOut \<Rightarrow> bool \<times> VoxelCollider \<times> PushOut" where
  "finishQuery r out =
     (let st = snd r;
          totalPushSq = totalPushX st * totalPushX st + totalPushY st * totalPushY st
                          + totalPushZ st * totalPushZ st;
          hasSignificantPush =
            (hadCollision st \<and> totalPushSq > PENETRATION_EPSILON * PENETRATION_EPSILON)
      in (hasSignificantPush, fst r,
          if hasSignificantPush
          then out\<lparr>pushX := totalPushX st, pushY := totalPushY st, pushZ := totalPushZ st\<rparr>
          else out))"

text \<open>\<^verbatim>\<open>querySphere(cx, cy, cz, radius, out)\<close>.\<close>

definition querySphere ::
  "VoxelCollider \<Rightarrow> real \<Rightarrow> real \<Rightarrow> real \<Rightarrow> real \<Rightarrow> PushOut \<Rightarrow> bool \<times> VoxelCollider \<times> PushOut" where
  "querySphere c cx cy cz radius out =
     (if nodes c = [] then (False, c, out)
      else finishQuery (querySphereLoop radius 0 c (initialState cx cy cz)) out)"

text \<open>The loop of \<^verbatim>\<open>queryCapsule\<close>.\<close>

function queryCapsuleLoop ::
  "real \<Rightarrow> real \<Rightarrow> nat \<Rightarrow> VoxelCollider \<Rightarrow> QueryState \<Rightarrow> VoxelCollider \<times> QueryState" where
  "queryCapsuleLoop halfHeight radius iter c st =
     (if iter < maxIterations then
        (let r = resolveDeepestPenetrationCapsule c (resolvedX st) (resolvedY st) (resolvedZ st)
                   halfHeight radius
         in if \<not> fst r then (snd r, st)
            else (let (c', st') = applyPush (snd r) st
                  in queryCapsuleLoop halfHeight radius (iter + 1) c' st'))
      else (c, st))"
  by pat_completeness auto
termination
  by (relation "measure (\<lambda>(halfHeight, radius, iter, c, st). maxIterations - iter)") auto

text \<open>\<^verbatim>\<open>queryCapsule(cx, cy, cz, halfHeight, radius, out)\<close>.\<close>

definition queryCapsule ::
  "VoxelCollider \<Rightarrow> real \<Rightarrow> real \<Rightarrow> real \<Rightarrow> real \<Rightarrow> real \<Rightarrow> PushOut
     \<Rightarrow> bool \<times> VoxelCollider \<times> PushOut" where
  "queryCapsule c cx cy cz halfHeight radius out =
     (if nodes c = [] then (False, c, out)
      else finishQuery (queryCapsuleLoop halfHeight radius 0 c (initialState cx cy cz)) out)"

declare querySphereLoop.simps [simp del]
declare queryCapsuleLoop.simps [simp del]

section \<open>Decoding\<close>

text \<open>
  \<^verbatim>\<open>VoxelMetadata\<close>, the parsed \<^verbatim>\<open>.voxel.json\<close>. The bounds are three-element
  arrays. The prefix \<open>meta_\<close> keeps the field names apart from the collider's.
\<close>

record VoxelMetadata =
  meta_version :: string
  meta_gridBoundsMin :: "real \<times> real \<times> real"
  meta_gridBoundsMax :: "real \<times> real \<times> real"
  meta_gaussianBoundsMin :: "real \<times> real \<times> real"
  meta_gaussianBoundsMax :: "real \<times> real \<times> real"
  meta_voxelResolution :: real
  meta_leafSize :: int
  meta_treeDepth :: int
  meta_numInteriorNodes :: int
  meta_numMixedLeaves :: int
  meta_nodeCount :: int
  meta_leafDataCount :: int

text \<open>\<^verbatim>\<open>Math.round\<close> rounds halves up.\<close>

definition mathRound :: "real \<Rightarrow> int" where
  "mathRound r = \<lfloor>r + 1 / 2\<rfloor>"

text \<open>
  The constructor. The scratch fields start as the class declares them: all components 0.
\<close>

definition zeroPush :: PushOut where
  "zeroPush = \<lparr>pushX = 0, pushY = 0, pushZ = 0\<rparr>"

definition newVoxelCollider :: "VoxelMetadata \<Rightarrow> u32 list \<Rightarrow> u32 list \<Rightarrow> VoxelCollider" where
  "newVoxelCollider metadata ns ld =
     (case (meta_gridBoundsMin metadata, meta_gridBoundsMax metadata) of
        ((min0, min1, min2), (max0, max1, max2)) \<Rightarrow>
          (let res = meta_voxelResolution metadata
           in \<lparr>gridMinX = min0, gridMinY = min1, gridMinZ = min2,
               numVoxelsX = mathRound ((max0 - min0) / res),
               numVoxelsY = mathRound ((max1 - min1) / res),
               numVoxelsZ = mathRound ((max2 - min2) / res),
               voxelResolution = res,
               leafSize = meta_leafSize metadata,
               treeDepth = meta_treeDepth metadata,
               nodes = ns, leafData = ld,
               push_scratch = zeroPush,
               constraintNormals = (zeroPush, zeroPush, zeroPush)\<rparr>))"

text \<open>
  \<^verbatim>\<open>TypedArray.prototype.slice(start, end)\<close>: a negative bound counts from the end,
  both bounds are clamped to the array, and an empty range gives an empty array.
\<close>

definition typedSlice :: "'a list \<Rightarrow> int \<Rightarrow> int \<Rightarrow> 'a list" where
  "typedSlice arr start stop =
     (let len = int (length arr);
          k = (if start < 0 then max (len + start) 0 else min start len);
          final = (if stop < 0 then max (len + stop) 0 else min stop len)
      in take (nat (final - k)) (drop (nat k) arr))"

text \<open>
  \<^verbatim>\<open>new Uint32Array(buffer)\<close> on a little-endian platform: four bytes per word; the
  caller checks that the byte length is a multiple of 4.
\<close>

fun uint32View :: "8 word list \<Rightarrow> u32 list" where
  "uint32View (b0 # b1 # b2 # b3 # rest) =
     (ucast b0 OR push_bit 8 (ucast b1) OR push_bit 16 (ucast b2) OR push_bit 24 (ucast b3))
       # uint32View rest"
| "uint32View _ = []"

text \<open>
  The body of the metadata response as \<^verbatim>\<open>load\<close> and the constructor use it.
  \<open>NotJson\<close> is text that \<^verbatim>\<open>metaResponse.json()\<close> rejects with a
  \<^verbatim>\<open>SyntaxError\<close>. \<open>NoMetadata\<close> is a JSON value on which a property read throws a
  \<^verbatim>\<open>TypeError\<close>: \<^verbatim>\<open>null\<close>, at \<^verbatim>\<open>metadata.nodeCount\<close> in \<^verbatim>\<open>load\<close>, or a
  value without \<^verbatim>\<open>gridBounds.min\<close> and \<^verbatim>\<open>gridBounds.max\<close>, at
  \<^verbatim>\<open>metadata.gridBounds.min[0]\<close> in the constructor. \<open>Metadata\<close> is a value with the
  fields of \<^verbatim>\<open>VoxelMetadata\<close>. A value that has the two bounds but lacks a number
  makes the arithmetic yield \<^verbatim>\<open>NaN\<close>; the reals have no such value and that input is
  not represented.
\<close>

datatype parsed_json = NotJson | NoMetadata | Metadata VoxelMetadata

text \<open>
  The outcome of a \<^verbatim>\<open>fetch\<close> followed by reading the body: the promise rejects, or
  a response arrives with its \<^verbatim>\<open>ok\<close> flag, its \<^verbatim>\<open>statusText\<close> and its body.
\<close>

datatype 'a fetched = FetchRejected | Response bool string 'a

datatype load_error =
    NetworkError
  | Error string
  | SyntaxError
  | RangeError
  | TypeError

text \<open>
  \<^verbatim>\<open>VoxelCollider.load(jsonUrl)\<close>, as a function of what the two fetches deliver. The
  statements run in the order of the source: the metadata is fetched and parsed, the
  binary is fetched and viewed as words (\<^verbatim>\<open>new Uint32Array(buffer)\<close> throws a
  \<^verbatim>\<open>RangeError\<close> on a byte length that is not a multiple of 4), and only then are the
  properties of the metadata read.
\<close>

definition load ::
  "parsed_json fetched \<Rightarrow> 8 word list fetched \<Rightarrow> load_error + VoxelCollider" where
  "load metaResponse binResponse =
     (case metaResponse of
        FetchRejected \<Rightarrow> Inl NetworkError
      | Response ok statusText body \<Rightarrow>
          if \<not> ok then Inl (Error (''Failed to fetch voxel metadata: '' @ statusText))
          else if body = NotJson then Inl SyntaxError
          else
            (case binResponse of
               FetchRejected \<Rightarrow> Inl NetworkError
             | Response binOk binStatusText buffer \<Rightarrow>
                 if \<not> binOk
                 then Inl (Error (''Failed to fetch voxel binary: '' @ binStatusText))
                 else if length buffer mod 4 \<noteq> 0 then Inl RangeError
                 else
                   (case body of
                      Metadata metadata \<Rightarrow>
                        (let view = uint32View buffer;
                             ns = typedSlice view 0 (meta_nodeCount metadata);
                             ld = typedSlice view (meta_nodeCount metadata)
                                    (meta_nodeCount metadata + meta_leafDataCount metadata)
                         in Inr (newVoxelCollider metadata ns ld))
                    | _ \<Rightarrow> Inl TypeError)))"

section \<open>The ray-march shader's block query\<close>

text \<open>
  The function \<^verbatim>\<open>queryBlock\<close> of the WGSL compute shader in
  \<^verbatim>\<open>voxel-debug-overlay.ts\<close>. WGSL leaves the value of an out-of-bounds read of a
  storage buffer to the implementation, so a read is \<open>None\<close> there.
\<close>

definition storageRead :: "u32 list \<Rightarrow> u32 \<Rightarrow> u32 option" where
  "storageRead buf i = (if unat i < length buf then Some (buf ! unat i) else None)"

text \<open>The WGSL built-in \<^verbatim>\<open>countOneBits\<close>.\<close>

definition countOneBits :: "u32 \<Rightarrow> u32" where
  "countOneBits w = of_nat (length (filter (bit w) [0..<32]))"

text \<open>The code after the loop of \<^verbatim>\<open>queryBlock\<close> (\<^verbatim>\<open>// Reached leaf level\<close>).\<close>

definition queryBlockLeaf :: "u32 list \<Rightarrow> u32 \<Rightarrow> (u32 \<times> u32) option" where
  "queryBlockLeaf ns nodeIndex =
     (case storageRead ns nodeIndex of
        None \<Rightarrow> None
      | Some node \<Rightarrow>
          if node = SOLID_LEAF_MARKER then Some (1, 0)
          else (let leafIdx = node AND 0x00FFFFFF in Some (2 + leafIdx, 0)))"

text \<open>
  The loop \<^verbatim>\<open>for (var level: u32 = depth - 1u; ; )\<close>. The arguments \<open>bx\<close>,
  \<open>by\<close>, \<open>bz\<close> are the values \<^verbatim>\<open>u32(bx)\<close>, \<^verbatim>\<open>u32(by)\<close>, \<^verbatim>\<open>u32(bz)\<close>; a
  shift uses its count modulo 32.
\<close>

function queryBlockLoop ::
  "u32 list \<Rightarrow> u32 \<times> u32 \<times> u32 \<Rightarrow> u32 \<Rightarrow> u32 \<Rightarrow> (u32 \<times> u32) option" where
  "queryBlockLoop ns (bx, by, bz) level nodeIndex =
     (case storageRead ns nodeIndex of
        None \<Rightarrow> None
      | Some node \<Rightarrow>
          if node = SOLID_LEAF_MARKER then Some (1, 0)
          else
            (let childMask = drop_bit 24 node AND 0xFF in
             if childMask = 0 then (let leafIdx = node AND 0x00FFFFFF in Some (2 + leafIdx, 0))
             else
               (let bitX = drop_bit (unat level mod 32) bx AND 1;
                    bitY = drop_bit (unat level mod 32) by AND 1;
                    bitZ = drop_bit (unat level mod 32) bz AND 1;
                    octant = unat (push_bit 2 bitZ OR push_bit 1 bitY OR bitX)
                in if childMask AND push_bit octant 1 = 0 then Some (0, level)
                   else
                     (let baseOffset = node AND 0x00FFFFFF;
                          prefix = push_bit octant 1 - 1;
                          childOffset = countOneBits (childMask AND prefix);
                          nodeIndex' = baseOffset + childOffset
                      in if level = 0 then queryBlockLeaf ns nodeIndex'
                         else queryBlockLoop ns (bx, by, bz) (level - 1) nodeIndex'))))"
  by pat_completeness auto
termination
proof (relation "measure (\<lambda>(ns, b, level, nodeIndex). unat level)", goal_cases)
  case 1
  show ?case by simp
next
  case (2 ns bx "by" bz level nodeIndex)
  from \<open>level \<noteq> 0\<close> have "unat (level - 1) < unat level"
    by (simp add: unat_minus_one unat_gt_0)
  then show ?case by simp
qed

declare queryBlockLoop.simps [simp del]

text \<open>\<^verbatim>\<open>queryBlock(bx, by, bz)\<close> with \<^verbatim>\<open>uniforms.treeDepth = depth\<close>.\<close>

definition queryBlock :: "u32 list \<Rightarrow> u32 \<Rightarrow> u32 \<Rightarrow> u32 \<Rightarrow> u32 \<Rightarrow> (u32 \<times> u32) option" where
  "queryBlock ns depth bx by bz = queryBlockLoop ns (bx, by, bz) (depth - 1) 0"

text \<open>
  What \<^verbatim>\<open>main\<close> makes of a block result for the voxel at local coordinates
  \<^verbatim>\<open>(vx, vy, vz)\<close>: a block with result 0 is stepped over, result 1 makes every voxel
  solid, and any other result reads the two mask words of leaf \<^verbatim>\<open>blockResult - 2u\<close>.
\<close>

definition blockVoxelSolid :: "u32 list \<Rightarrow> u32 \<Rightarrow> u32 \<Rightarrow> u32 \<Rightarrow> u32 \<Rightarrow> bool option" where
  "blockVoxelSolid ld blockResult vx vy vz =
     (if blockResult = 0 then Some False
      else if blockResult = 1 then Some True
      else
        (let leafIdx = blockResult - 2 in
         case storageRead ld (leafIdx * 2) of
           None \<Rightarrow> None
         | Some maskLo \<Rightarrow>
             (case storageRead ld (leafIdx * 2 + 1) of
                None \<Rightarrow> None
              | Some maskHi \<Rightarrow>
                  (let bitIndex = vz * 16 + vy * 4 + vx
                   in Some (if bitIndex < 32
                            then maskLo AND push_bit (unat bitIndex mod 32) 1 \<noteq> 0
                            else maskHi AND push_bit (unat (bitIndex - 32) mod 32) 1 \<noteq> 0)))))"


section \<open>Reference octree lookup\<close>

text \<open>
  The lookup as the specification words it: a node word is classified once as solid
  sentinel, mixed leaf or interior node; a mixed leaf is a 64-bit mask \<open>(lo, hi)\<close> indexed
  by \<open>z * 16 + y * 4 + x\<close> over the local coordinates; the octant at a level is
  \<open>(bitZ << 2) | (bitY << 1) | bitX\<close> from bit \<open>level\<close> of the block coordinates; the
  child of octant \<open>i\<close> sits at the base offset plus the number of set mask bits below
  \<open>i\<close>. The recursion is structural in the number of levels still to descend.
\<close>

datatype node_kind = SolidSentinel | MixedLeaf nat | Interior u32 nat

definition classify :: "u32 \<Rightarrow> node_kind" where
  "classify w =
     (if w = 0xFF000000 then SolidSentinel
      else if drop_bit 24 w = 0 then MixedLeaf (unat (take_bit 24 w))
      else Interior (drop_bit 24 w) (unat (take_bit 24 w)))"

definition leaf_mask_bit :: "u32 list \<Rightarrow> nat \<Rightarrow> int \<times> int \<times> int \<Rightarrow> bool" where
  "leaf_mask_bit ld k v =
     (case v of (ix, iy, iz) \<Rightarrow>
        bit (word_cat (u32_at ld (2 * k + 1)) (u32_at ld (2 * k)) :: 64 word)
            (nat (iz AND 3) * 16 + nat (iy AND 3) * 4 + nat (ix AND 3)))"

definition octant_of :: "nat \<Rightarrow> int \<times> int \<times> int \<Rightarrow> nat" where
  "octant_of l b =
     (case b of (bx, by, bz) \<Rightarrow>
        4 * of_bool (bit bz l) + 2 * of_bool (bit by l) + of_bool (bit bx l))"

definition bits_below :: "u32 \<Rightarrow> nat \<Rightarrow> nat" where
  "bits_below m k = length (filter (bit m) [0..<k])"

fun ref_lookup ::
  "u32 list \<Rightarrow> u32 list \<Rightarrow> int \<times> int \<times> int \<Rightarrow> int \<times> int \<times> int \<Rightarrow> nat \<Rightarrow> nat \<Rightarrow> bool" where
  "ref_lookup ns ld b v 0 idx =
     (case classify (u32_at ns idx) of
        SolidSentinel \<Rightarrow> True
      | MixedLeaf k \<Rightarrow> leaf_mask_bit ld k v
      | Interior m k \<Rightarrow> leaf_mask_bit ld k v)"
| "ref_lookup ns ld b v (Suc l) idx =
     (case classify (u32_at ns idx) of
        SolidSentinel \<Rightarrow> True
      | MixedLeaf k \<Rightarrow> leaf_mask_bit ld k v
      | Interior m base \<Rightarrow>
          (let i = octant_of l b
           in if bit m i then ref_lookup ns ld b v l (base + bits_below m i) else False))"

definition ref_isVoxelSolid :: "VoxelCollider \<Rightarrow> int \<Rightarrow> int \<Rightarrow> int \<Rightarrow> bool" where
  "ref_isVoxelSolid c ix iy iz =
     (nodes c \<noteq> [] \<and> 0 \<le> ix \<and> ix < numVoxelsX c \<and> 0 \<le> iy \<and> iy < numVoxelsY c \<and>
      0 \<le> iz \<and> iz < numVoxelsZ c \<and>
      ref_lookup (nodes c) (leafData c)
        (ix div leafSize c, iy div leafSize c, iz div leafSize c) (ix, iy, iz)
        (nat (treeDepth c)) 0)"

section \<open>Example grids\<close>

text \<open>
  A grid of 8 x 8 x 8 voxels with one level above the blocks: block (0,0,0) is solid,
  block (1,0,0) is a mixed leaf whose local voxels (0,0,0) and (3,3,3) are solid, and the
  other six blocks are empty.
\<close>

definition exampleGrid :: VoxelCollider where
  "exampleGrid =
     \<lparr>gridMinX = 0, gridMinY = 0, gridMinZ = 0,
      numVoxelsX = 8, numVoxelsY = 8, numVoxelsZ = 8,
      voxelResolution = 1, leafSize = 4, treeDepth = 1,
      nodes = [0x03000001, 0xFF000000, 0x00000000],
      leafData = [0x00000001, 0x80000000],
      push_scratch = zeroPush,
      constraintNormals = (zeroPush, zeroPush, zeroPush)\<rparr>"

text \<open>The same node and leaf arrays under a tree depth of 33.\<close>

definition deepGrid :: VoxelCollider where
  "deepGrid = exampleGrid\<lparr>treeDepth := 33\<rparr>"

section \<open>Nodes reached by the descent\<close>

text \<open>
  The octant and the child index that one iteration of the loop of \<^verbatim>\<open>isVoxelSolid\<close>
  computes, and the pairs of \<open>level\<close> and \<open>nodeIndex\<close> the loop variable and the current
  node run through: the loop starts at \<open>(treeDepth - 1, 0)\<close> and moves to the child when
  the node is neither the sentinel nor a mixed leaf and the octant is present.
\<close>

definition stepOctant :: "int \<Rightarrow> int \<times> int \<times> int \<Rightarrow> nat" where
  "stepOctant level b =
     (case b of (blockX, blockY, blockZ) \<Rightarrow>
        (let bitX = drop_bit (nat (level mod 32)) (word_of_int blockX :: u32) AND 1;
             bitY = drop_bit (nat (level mod 32)) (word_of_int blockY :: u32) AND 1;
             bitZ = drop_bit (nat (level mod 32)) (word_of_int blockZ :: u32) AND 1
         in unat (push_bit 2 bitZ OR push_bit 1 bitY OR bitX)))"

definition stepChild :: "u32 \<Rightarrow> nat \<Rightarrow> nat" where
  "stepChild node octant =
     (let childMask = drop_bit 24 node AND 0xFF;
          baseOffset = node AND 0x00FFFFFF;
          prefix = push_bit octant 1 - 1;
          childOffset = popcount (childMask AND prefix)
      in unat baseOffset + unat childOffset)"

inductive reaches :: "u32 list \<Rightarrow> int \<times> int \<times> int \<Rightarrow> int \<Rightarrow> int \<Rightarrow> nat \<Rightarrow> bool"
  for ns :: "u32 list" and b :: "int \<times> int \<times> int" and depth :: int
where
  reaches_root: "reaches ns b depth (depth - 1) 0"
| reaches_child:
    "reaches ns b depth level idx \<Longrightarrow> level \<ge> 0 \<Longrightarrow>
     u32_at ns idx \<noteq> SOLID_LEAF_MARKER \<Longrightarrow>
     drop_bit 24 (u32_at ns idx) AND 0xFF \<noteq> 0 \<Longrightarrow>
     (drop_bit 24 (u32_at ns idx) AND 0xFF) AND push_bit (stepOctant level b) 1 \<noteq> 0 \<Longrightarrow>
     reaches ns b depth (level - 1) (stepChild (u32_at ns idx) (stepOctant level b))"

code_pred reaches .


section \<open>Reference contact iteration\<close>

text \<open>
  The iteration as the specification words it, over plain vectors and a list of recorded
  unit normals: run the resolver at the candidate position; stop when it reports no
  penetration; otherwise remove from the push, for each recorded normal \<open>n\<close> in turn with
  \<open>dot (push, n) < 0\<close>, the component \<open>dot (push, n) * n\<close>; record the direction of the
  push before projection when its length exceeds the epsilon and fewer than three
  normals are recorded; advance the position and the total by the projected push. At
  most four rounds; the result is significant when a round found a penetration and the
  squared length of the total exceeds the squared epsilon.
\<close>

type_synonym vec3 = "real \<times> real \<times> real"

definition dot3 :: "vec3 \<Rightarrow> vec3 \<Rightarrow> real" where
  "dot3 a b = (case (a, b) of ((ax, ay, az), (bx, by, bz)) \<Rightarrow> ax * bx + ay * by + az * bz)"

definition add3 :: "vec3 \<Rightarrow> vec3 \<Rightarrow> vec3" where
  "add3 a b = (case (a, b) of ((ax, ay, az), (bx, by, bz)) \<Rightarrow> (ax + bx, ay + by, az + bz))"

definition scale3 :: "real \<Rightarrow> vec3 \<Rightarrow> vec3" where
  "scale3 k a = (case a of (ax, ay, az) \<Rightarrow> (ax * k, ay * k, az * k))"

definition remove_component :: "vec3 \<Rightarrow> vec3 \<Rightarrow> vec3" where
  "remove_component n p =
     (if dot3 p n < 0
      then (case (p, n) of ((px, py, pz), (nx, ny, nz)) \<Rightarrow>
              (px - dot3 p n * nx, py - dot3 p n * ny, pz - dot3 p n * nz))
      else p)"

definition project_against :: "vec3 list \<Rightarrow> vec3 \<Rightarrow> vec3" where
  "project_against normals push = fold remove_component normals push"

definition length3 :: "vec3 \<Rightarrow> real" where
  "length3 a = sqrt (dot3 a a)"

fun iterate_contacts ::
  "(vec3 \<Rightarrow> vec3 option) \<Rightarrow> nat \<Rightarrow> vec3 \<Rightarrow> vec3 list \<Rightarrow> vec3 \<Rightarrow> bool \<Rightarrow> bool \<times> vec3" where
  "iterate_contacts resolver 0 pos normals tot hit = (hit, tot)"
| "iterate_contacts resolver (Suc k) pos normals tot hit =
     (case resolver pos of
        None \<Rightarrow> (hit, tot)
      | Some push \<Rightarrow>
          (let applied = project_against normals push;
               normals' = (if length3 push > PENETRATION_EPSILON \<and> length normals < 3
                           then normals @ [scale3 (1 / length3 push) push]
                           else normals)
           in iterate_contacts resolver k (add3 pos applied) normals' (add3 tot applied) True))"

definition significant :: "bool \<times> vec3 \<Rightarrow> bool" where
  "significant r = (fst r \<and> dot3 (snd r) (snd r) > PENETRATION_EPSILON * PENETRATION_EPSILON)"

text \<open>
  The two resolvers of the source seen as functions of the candidate position: the
  push they leave in \<^verbatim>\<open>_push\<close> when they return true.
\<close>

definition vecOf :: "PushOut \<Rightarrow> vec3" where
  "vecOf p = (pushX p, pushY p, pushZ p)"

definition sphereResolver :: "VoxelCollider \<Rightarrow> real \<Rightarrow> vec3 \<Rightarrow> vec3 option" where
  "sphereResolver c radius pos =
     (case pos of (x, y, z) \<Rightarrow>
        (let res = resolveDeepestPenetration c x y z radius
         in if fst res then Some (vecOf (push_scratch (snd res))) else None))"

definition capsuleResolver :: "VoxelCollider \<Rightarrow> real \<Rightarrow> real \<Rightarrow> vec3 \<Rightarrow> vec3 option" where
  "capsuleResolver c halfHeight radius pos =
     (case pos of (x, y, z) \<Rightarrow>
        (let res = resolveDeepestPenetrationCapsule c x y z halfHeight radius
         in if fst res then Some (vecOf (push_scratch (snd res))) else None))"

definition resolve_contacts :: "(vec3 \<Rightarrow> vec3 option) \<Rightarrow> vec3 \<Rightarrow> bool \<times> vec3" where
  "resolve_contacts resolver start = iterate_contacts resolver 4 start [] (0, 0, 0) False"

section \<open>Auxiliary notions for the proofs\<close>

text \<open>
  Two colliders are the same grid when they differ at most in the scratch fields
  \<^verbatim>\<open>_push\<close> and \<^verbatim>\<open>_constraintNormals\<close>. \<open>sphereBest\<close> and \<open>capsuleBest\<close> name the
  value of the local variables after the three nested loops of the resolvers;
  \<open>recorded\<close> lists the first \<open>n\<close> constraint normals as vectors.
\<close>

definition sameGrid :: "VoxelCollider \<Rightarrow> VoxelCollider \<Rightarrow> bool" where
  "sameGrid c c' =
     (c' = c\<lparr>push_scratch := push_scratch c', constraintNormals := constraintNormals c'\<rparr>)"

definition sphereBest :: "VoxelCollider \<Rightarrow> real \<Rightarrow> real \<Rightarrow> real \<Rightarrow> real \<Rightarrow> BestPush" where
  "sphereBest c cx cy cz radius =
     fold (\<lambda>iz. fold (\<lambda>iy. fold (\<lambda>ix.
                   keepDeepest (sphereVoxelPush c cx cy cz radius ix iy iz))
                   [\<lfloor>(cx - radius - gridMinX c) / voxelResolution c\<rfloor>..\<lfloor>(cx + radius - gridMinX c) / voxelResolution c\<rfloor>])
                   [\<lfloor>(cy - radius - gridMinY c) / voxelResolution c\<rfloor>..\<lfloor>(cy + radius - gridMinY c) / voxelResolution c\<rfloor>])
                   [\<lfloor>(cz - radius - gridMinZ c) / voxelResolution c\<rfloor>..\<lfloor>(cz + radius - gridMinZ c) / voxelResolution c\<rfloor>] initialBest"

definition bestPush :: "BestPush \<Rightarrow> PushOut" where
  "bestPush b = \<lparr>pushX = bestPushX b, pushY = bestPushY b, pushZ = bestPushZ b\<rparr>"

definition capsuleBest ::
  "VoxelCollider \<Rightarrow> real \<Rightarrow> real \<Rightarrow> real \<Rightarrow> real \<Rightarrow> real \<Rightarrow> BestPush" where
  "capsuleBest c cx cy cz halfHeight radius =
     fold (\<lambda>iz. fold (\<lambda>iy. fold (\<lambda>ix.
                   keepDeepest (capsuleVoxelPush c cx cy cz halfHeight radius ix iy iz))
                   [\<lfloor>(cx - radius - gridMinX c) / voxelResolution c\<rfloor>..\<lfloor>(cx + radius - gridMinX c) / voxelResolution c\<rfloor>])
                   [\<lfloor>(cy - halfHeight - radius - gridMinY c) / voxelResolution c\<rfloor>..\<lfloor>(cy + halfHeight + radius - gridMinY c) / voxelResolution c\<rfloor>])
                   [\<lfloor>(cz - radius - gridMinZ c) / voxelResolution c\<rfloor>..\<lfloor>(cz + radius - gridMinZ c) / voxelResolution c\<rfloor>] initialBest"

definition recorded :: "VoxelCollider \<Rightarrow> nat \<Rightarrow> vec3 list" where
  "recorded c n = map (\<lambda>i. vecOf (normalAt (constraintNormals c) i)) [0..<n]"

definition posOf :: "QueryState \<Rightarrow> vec3" where
  "posOf st = (resolvedX st, resolvedY st, resolvedZ st)"

definition totalOf :: "QueryState \<Rightarrow> vec3" where
  "totalOf st = (totalPushX st, totalPushY st, totalPushZ st)"


section \<open>Escape distances\<close>

text \<open>
  The notions of the claim about a defining point inside a voxel: the voxel's faces on
  one axis, the squared distance from a point to the closest point of the voxel's box,
  the escape on one axis (the signed distance to the nearer face plus the radius in that
  outward direction), and what it means for a candidate push to go along the single axis
  of least absolute escape with that depth. \<open>capsuleSegY\<close> is the segment point the
  capsule resolver picks for a voxel row, as the source computes it.
\<close>

definition voxelMin :: "real \<Rightarrow> real \<Rightarrow> int \<Rightarrow> real" where
  "voxelMin gridMin res i = gridMin + real_of_int i * res"

definition voxelMax :: "real \<Rightarrow> real \<Rightarrow> int \<Rightarrow> real" where
  "voxelMax gridMin res i = voxelMin gridMin res i + res"

definition clampTo :: "real \<Rightarrow> real \<Rightarrow> real \<Rightarrow> real" where
  "clampTo lo hi p = max lo (min p hi)"

definition pointBoxDistSq :: "VoxelCollider \<Rightarrow> real \<times> real \<times> real \<Rightarrow> int \<times> int \<times> int \<Rightarrow> real" where
  "pointBoxDistSq c p v =
     (case (p, v) of ((px, py, pz), (ix, iy, iz)) \<Rightarrow>
        (let dx = px - clampTo (voxelMin (gridMinX c) (voxelResolution c) ix)
                         (voxelMax (gridMinX c) (voxelResolution c) ix) px;
             dy = py - clampTo (voxelMin (gridMinY c) (voxelResolution c) iy)
                         (voxelMax (gridMinY c) (voxelResolution c) iy) py;
             dz = pz - clampTo (voxelMin (gridMinZ c) (voxelResolution c) iz)
                         (voxelMax (gridMinZ c) (voxelResolution c) iz) pz
         in dx * dx + dy * dy + dz * dz))"

definition escape :: "real \<Rightarrow> real \<Rightarrow> real \<Rightarrow> real \<Rightarrow> real" where
  "escape lo hi radius p = (if p - lo < hi - p then - ((p - lo) + radius) else (hi - p) + radius)"

definition least_escape_push ::
  "real \<Rightarrow> real \<Rightarrow> real \<Rightarrow> (real \<times> real \<times> real \<times> real) option \<Rightarrow> bool" where
  "least_escape_push ex ey ez cand =
     (case cand of
        None \<Rightarrow> False
      | Some (px, py, pz, penetration) \<Rightarrow>
          penetration = min \<bar>ex\<bar> (min \<bar>ey\<bar> \<bar>ez\<bar>) \<and>
          ((px, py, pz) = (ex, 0, 0) \<and> \<bar>ex\<bar> = penetration \<or>
           (px, py, pz) = (0, ey, 0) \<and> \<bar>ey\<bar> = penetration \<or>
           (px, py, pz) = (0, 0, ez) \<and> \<bar>ez\<bar> = penetration))"

definition capsuleSegY :: "VoxelCollider \<Rightarrow> real \<Rightarrow> real \<Rightarrow> int \<Rightarrow> real" where
  "capsuleSegY c cy halfHeight iy =
     (let segBottomY = cy - halfHeight;
          segTopY = cy + halfHeight;
          vMinY = gridMinY c + real_of_int iy * voxelResolution c;
          vMaxY = vMinY + voxelResolution c
      in if segTopY < vMinY then segTopY
         else if segBottomY > vMaxY then segBottomY
         else (let aabbCenterY = (vMinY + vMaxY) * (1 / 2)
               in max segBottomY (min segTopY aabbCenterY)))"


section \<open>More example grids\<close>

text \<open>
  A grid of a single solid voxel \<open>[0, 1]\<^sup>3\<close>, an unloaded grid, and the single-voxel grid
  as a sphere query that started inside the voxel leaves it.
\<close>

definition unitGrid :: VoxelCollider where
  "unitGrid =
     \<lparr>gridMinX = 0, gridMinY = 0, gridMinZ = 0,
      numVoxelsX = 1, numVoxelsY = 1, numVoxelsZ = 1,
      voxelResolution = 1, leafSize = 4, treeDepth = 0,
      nodes = [0xFF000000], leafData = [],
      push_scratch = zeroPush,
      constraintNormals = (zeroPush, zeroPush, zeroPush)\<rparr>"

definition emptyGrid :: VoxelCollider where
  "emptyGrid =
     \<lparr>gridMinX = 0, gridMinY = 0, gridMinZ = 0,
      numVoxelsX = 4, numVoxelsY = 4, numVoxelsZ = 4,
      voxelResolution = 1, leafSize = 4, treeDepth = 0,
      nodes = [], leafData = [],
      push_scratch = zeroPush,
      constraintNormals = (zeroPush, zeroPush, zeroPush)\<rparr>"


definition unitGridPushed :: VoxelCollider where
  "unitGridPushed = unitGrid\<lparr>push_scratch := \<lparr>pushX = 3 / 4, pushY = 0, pushZ = 0\<rparr>,
     constraintNormals := (\<lparr>pushX = 1, pushY = 0, pushZ = 0\<rparr>, zeroPush, zeroPush)\<rparr>"


section \<open>An example asset\<close>

text \<open>
  Metadata that announces two node words and two leaf words; the examples pair it with
  a binary file of four bytes, one word.
\<close>

definition shortMetadata :: VoxelMetadata where
  "shortMetadata =
     \<lparr>meta_version = ''1.0'',
      meta_gridBoundsMin = (0, 0, 0), meta_gridBoundsMax = (4, 4, 4),
      meta_gaussianBoundsMin = (0, 0, 0), meta_gaussianBoundsMax = (4, 4, 4),
      meta_voxelResolution = 1, meta_leafSize = 4, meta_treeDepth = 0,
      meta_numInteriorNodes = 0, meta_numMixedLeaves = 2,
      meta_nodeCount = 2, meta_leafDataCount = 2\<rparr>"


section \<open>Block classification of the descent\<close>

text \<open>
  The descent of \<^verbatim>\<open>isVoxelSolid\<close> decides three things about the block of a voxel
  before it looks at the voxel itself: the block is solid (a node is the solid-leaf
  sentinel), the block is empty (the octant is missing from a child mask), or the block
  is a mixed leaf with some index into the leaf data. \<open>cpuBlockClass\<close> is that loop and
  the leaf-level code after it with the three outcomes kept apart; \<open>classVoxelSolid\<close> is
  what \<^verbatim>\<open>isVoxelSolid\<close> then answers for a voxel, and \<open>classWord\<close> is the encoding of
  the outcome that the WGSL \<^verbatim>\<open>queryBlock\<close> documents: 0 empty, 1 solid, 2 plus the
  leaf index for a mixed leaf.
\<close>

datatype block_class = BlockSolid | BlockEmpty | BlockLeaf nat

function cpuBlockClass :: "u32 list \<Rightarrow> int \<times> int \<times> int \<Rightarrow> int \<Rightarrow> nat \<Rightarrow> block_class" where
  "cpuBlockClass ns b level nodeIndex =
     (if level \<ge> 0 then
        (let node = u32_at ns nodeIndex in
         if node = SOLID_LEAF_MARKER then BlockSolid
         else if drop_bit 24 node AND 0xFF = 0 then BlockLeaf (unat (node AND 0x00FFFFFF))
         else if (drop_bit 24 node AND 0xFF) AND push_bit (stepOctant level b) 1 = 0
              then BlockEmpty
         else cpuBlockClass ns b (level - 1) (stepChild node (stepOctant level b)))
      else
        (let node = u32_at ns nodeIndex in
         if node = SOLID_LEAF_MARKER then BlockSolid
         else BlockLeaf (unat (node AND 0x00FFFFFF))))"
  by pat_completeness auto
termination
  by (relation "measure (\<lambda>(ns, b, level, nodeIndex). nat (level + 1))") auto

declare cpuBlockClass.simps [simp del]

definition classVoxelSolid :: "u32 list \<Rightarrow> block_class \<Rightarrow> int \<Rightarrow> int \<Rightarrow> int \<Rightarrow> bool" where
  "classVoxelSolid ld cls ix iy iz =
     (case cls of
        BlockSolid \<Rightarrow> True
      | BlockEmpty \<Rightarrow> False
      | BlockLeaf k \<Rightarrow> checkLeafByIndex ld (word_of_nat k) ix iy iz)"

definition classWord :: "block_class \<Rightarrow> u32" where
  "classWord cls = (case cls of BlockSolid \<Rightarrow> 1 | BlockEmpty \<Rightarrow> 0 | BlockLeaf k \<Rightarrow> 2 + word_of_nat k)"

text \<open>
  A grid of one block whose root word has a child mask although the tree has no level
  above the blocks: the low 24 bits of the root are 1, node 1 is the word 0, leaf 0 is
  empty and leaf 1 is full.
\<close>

definition depthZeroGrid :: VoxelCollider where
  "depthZeroGrid =
     \<lparr>gridMinX = 0, gridMinY = 0, gridMinZ = 0,
      numVoxelsX = 4, numVoxelsY = 4, numVoxelsZ = 4,
      voxelResolution = 1, leafSize = 4, treeDepth = 0,
      nodes = [0x01000001, 0x00000000],
      leafData = [0x00000000, 0x00000000, 0xFFFFFFFF, 0xFFFFFFFF],
      push_scratch = zeroPush,
      constraintNormals = (zeroPush, zeroPush, zeroPush)\<rparr>"


section \<open>Bit-level facts\<close>

lemma byte_mask: "(0xFF::u32) = mask 8"
  by (simp add: mask_eq_exp_minus_1)

lemma offset_mask: "(0x00FFFFFF::u32) = mask 24"
  by (simp add: mask_eq_exp_minus_1)

lemma childMask_and: "drop_bit 24 (w::u32) AND 0xFF = drop_bit 24 w"
  unfolding byte_mask
  by (rule bit_word_eqI) (auto simp: bit_simps dest: bit_imp_le_length)

lemma childMask_lt: "drop_bit 24 (w::u32) < 256"
proof -
  have "unat w < 2 ^ 32" using unsigned_less[of w] by simp
  then have "unat w div 2 ^ 24 < 256" by simp
  then show ?thesis by (simp add: word_less_nat_alt drop_bit_eq_div unat_div)
qed

lemma low24: "(w::u32) AND 0x00FFFFFF = take_bit 24 w"
  unfolding offset_mask by (simp add: take_bit_eq_mask)

lemma local3: "unat ((word_of_int i :: u32) AND 3) = nat (i AND 3)"
proof -
  have e: "(word_of_int i :: u32) AND 3 = word_of_int (i AND 3)" by (simp add: of_int_and_eq)
  have lo: "0 \<le> i AND 3" by simp
  have hi: "i AND 3 \<le> 3" by (simp add: AND_upper2')
  have "i AND 3 < 2 ^ 32" by (rule le_less_trans[OF hi]) simp
  then have t: "take_bit 32 (i AND 3) = i AND 3" using lo by (simp only: take_bit_int_eq_self)
  have "uint (word_of_int (i AND 3) :: u32) = take_bit 32 (i AND 3)"
    by (simp add: uint_word_of_int_eq)
  then show ?thesis unfolding e by (simp only: unat_eq_nat_uint t)
qed

lemma bits_below_take: "k \<le> 8 \<Longrightarrow> bits_below (take_bit k m) 8 = bits_below m k"
proof -
  assume k: "k \<le> 8"
  have "k + (8 - k) = 8" using k by simp
  then have s: "[0..<8] = [0..<k] @ [k..<8]"
    using upt_add_eq_append[of 0 k "8 - k"] by simp
  have a: "filter (bit (take_bit k m)) [0..<k] = filter (bit m) [0..<k]"
    by (rule filter_cong) (simp_all add: bit_take_bit_iff)
  have b: "filter (bit (take_bit k m)) [k..<8] = []"
    by (simp add: filter_empty_conv bit_take_bit_iff)
  show ?thesis unfolding bits_below_def s filter_append a b by simp
qed

lemma prefix_mask: "(m::u32) AND (push_bit k 1 - 1) = take_bit k m"
  by (simp add: take_bit_eq_mask mask_eq_exp_minus_1 push_bit_eq_mult)

text \<open>The branch-free \<open>popcount\<close> counts the set bits of every byte value.\<close>

lemma popcount_bytes:
  "list_all (\<lambda>n. unat (popcount (of_nat n)) = bits_below (of_nat n) 8) [0..<256]"
  by code_simp

lemma popcount_byte:
  assumes "w < 256"
  shows "unat (popcount w) = bits_below w 8"
proof -
  have "unat w < 256" using assms by (simp add: word_less_nat_alt)
  then have "unat w \<in> set [0..<256]" by simp
  with popcount_bytes
  have "unat (popcount (of_nat (unat w))) = bits_below (of_nat (unat w)) 8"
    unfolding list_all_iff by blast
  then show ?thesis by simp
qed

lemma level_bit:
  assumes "l < 32"
  shows "drop_bit (nat (int l mod 32)) (word_of_int b :: u32) AND 1 = of_bool (bit b l)"
proof -
  have n: "nat (int l mod 32) = l" using assms by simp
  have "drop_bit l (word_of_int b :: u32) AND 1 = of_bool (odd (drop_bit l (word_of_int b :: u32)))"
    by (simp only: and_one_eq of_bool_odd_eq_mod_2)
  also have "odd (drop_bit l (word_of_int b :: u32)) = bit (word_of_int b :: u32) l"
    by (simp only: bit_iff_odd_drop_bit)
  also have "\<dots> = bit b l" using assms by (simp add: bit_word_of_int_iff)
  finally show ?thesis unfolding n .
qed

lemma octant_value:
  "unat (push_bit 2 (of_bool z :: u32) OR push_bit 1 (of_bool y) OR of_bool x)
     = 4 * of_bool z + 2 * of_bool y + of_bool x"
  by (cases x; cases y; cases z) simp_all

lemma child_offset:
  assumes "i \<le> 8"
  shows "unat (popcount (drop_bit 24 (w::u32) AND (push_bit i 1 - 1)))
           = bits_below (drop_bit 24 w) i"
proof -
  have "unat (take_bit i (drop_bit 24 w)) \<le> unat (drop_bit 24 w)"
    by (simp add: unsigned_take_bit_eq take_bit_nat_less_eq_self)
  then have "take_bit i (drop_bit 24 w) < 256"
    using childMask_lt[of w] by (simp add: word_less_nat_alt)
  then show ?thesis
    unfolding prefix_mask using assms by (simp add: popcount_byte bits_below_take)
qed

lemma and_push_bit_1_eq_0: "((a::u32) AND push_bit n 1 = 0) = (\<not> bit a n)"
  by (simp only: bit_iff_and_push_bit_not_eq_0 not_not)

lemma checkLeaf_ref:
  "checkLeafByIndex ld node ix iy iz = leaf_mask_bit ld (unat (take_bit 24 node)) (ix, iy, iz)"
proof -
  have b: "nat (i AND 3) \<le> 3" for i :: int
  proof -
    have "i AND 3 \<le> 3" by (simp add: AND_upper2')
    then show ?thesis by linarith
  qed
  have "nat (iz AND 3) * 16 + nat (iy AND 3) * 4 + nat (ix AND 3) < 64"
    using b[of ix] b[of iy] b[of iz] by linarith
  then show ?thesis
    by (simp add: checkLeafByIndex_def leaf_mask_bit_def low24 local3 Let_def
        bit_iff_and_drop_bit_eq_1[symmetric] bit_word_cat_iff mult.commute)
qed

section \<open>The traversal against the reference lookup\<close>

text \<open>One iteration of the descent loop, at a level below 32.\<close>

lemma traverse_step:
  assumes l: "l < 32"
  shows "traverse ns ld (bx, by, bz) (ix, iy, iz) (int l) idx =
     (let node = u32_at ns idx in
      if node = SOLID_LEAF_MARKER then True
      else if drop_bit 24 node = 0 then leaf_mask_bit ld (unat (take_bit 24 node)) (ix, iy, iz)
      else if bit (drop_bit 24 node) (octant_of l (bx, by, bz))
           then traverse ns ld (bx, by, bz) (ix, iy, iz) (int l - 1)
                  (unat (take_bit 24 node) + bits_below (drop_bit 24 node) (octant_of l (bx, by, bz)))
           else False)"
proof -
  have o8: "octant_of l (bx, by, bz) \<le> 8" by (simp add: octant_of_def)
  have oc: "4 * of_bool (bit bz l) + 2 * of_bool (bit by l) + of_bool (bit bx l)
              = octant_of l (bx, by, bz)" by (simp add: octant_of_def)
  have ge: "(0 \<le> int l) = True" by simp
  show ?thesis
    apply (subst traverse.simps)
    apply (simp only: ge if_True Let_def level_bit[OF l] octant_value oc childMask_and low24
        and_push_bit_1_eq_0 child_offset[OF o8] checkLeaf_ref)
    apply (simp split del: split_of_bool)
    done
qed

text \<open>The code after the loop.\<close>

lemma traverse_leaf:
  assumes "level < 0"
  shows "traverse ns ld b (ix, iy, iz) level idx =
     (let node = u32_at ns idx in
      if node = SOLID_LEAF_MARKER then True
      else leaf_mask_bit ld (unat (take_bit 24 node)) (ix, iy, iz))"
proof -
  obtain bx "by" bz where b: "b = (bx, by, bz)" by (cases b)
  show ?thesis unfolding b
    by (subst traverse.simps) (use assms in \<open>simp add: checkLeaf_ref\<close>)
qed

lemma traverse_ref:
  "l \<le> 32 \<Longrightarrow> traverse ns ld b v (int l - 1) idx = ref_lookup ns ld b v l idx"
proof (induction l arbitrary: idx)
  case 0
  obtain ix iy iz where v: "v = (ix, iy, iz)" by (cases v)
  show ?case
    unfolding v
    by (simp add: traverse_leaf classify_def SOLID_LEAF_MARKER_def Let_def)
next
  case (Suc l)
  obtain bx "by" bz where b: "b = (bx, by, bz)" by (cases b)
  obtain ix iy iz where v: "v = (ix, iy, iz)" by (cases v)
  have l: "l < 32" using Suc.prems by simp
  have IH: "traverse ns ld (bx, by, bz) (ix, iy, iz) (int l - 1) j
              = ref_lookup ns ld (bx, by, bz) (ix, iy, iz) l j" for j
    using Suc.IH[of j] l unfolding b v by simp
  have lv: "int (Suc l) - 1 = int l" by simp
  show ?case
    unfolding b v lv traverse_step[OF l]
    by (simp add: IH classify_def SOLID_LEAF_MARKER_def Let_def)
qed

text \<open>
  Claim C1, amended. For a tree of at most 32 levels and every voxel index triple, in
  particular every triple inside \<open>[0, numVoxels)\<close> on all axes, \<open>isVoxelSolid\<close> (block
  coordinate \<open>index / leafSize\<close>, start at node 0, sentinel test, mixed-leaf test, octant
  from bit \<open>level\<close>, child at \<open>baseOffset + popcount (childMask & lower-octant mask)\<close>,
  leaf-level resolution after the loop) equals the reference recursive lookup over the
  same node and leaf arrays.
\<close>

theorem isVoxelSolid_is_reference_lookup:
  assumes "treeDepth c \<le> 32"
  shows "isVoxelSolid c ix iy iz = ref_isVoxelSolid c ix iy iz"
proof -
  have n: "nat (treeDepth c) \<le> 32" using assms by simp
  show ?thesis
  proof (cases "0 \<le> treeDepth c")
    case True
    then have "treeDepth c - 1 = int (nat (treeDepth c)) - 1" by simp
    then show ?thesis
      using traverse_ref[OF n]
      by (auto simp: isVoxelSolid_def ref_isVoxelSolid_def blockCoord_def)
  next
    case False
    then have z: "nat (treeDepth c) = 0" and neg: "treeDepth c - 1 < 0" by simp_all
    show ?thesis
      unfolding isVoxelSolid_def ref_isVoxelSolid_def z
      using neg
      by (auto simp: traverse_leaf classify_def SOLID_LEAF_MARKER_def Let_def blockCoord_def)
  qed
qed

lemma exampleGrid_voxels:
  "isVoxelSolid exampleGrid 1 2 3 \<and> isVoxelSolid exampleGrid 4 0 0 \<and>
   \<not> isVoxelSolid exampleGrid 5 0 0 \<and> isVoxelSolid exampleGrid 7 3 3 \<and>
   \<not> isVoxelSolid exampleGrid 0 4 0"
  by code_simp

theorem isVoxelSolid_is_reference_lookup_witness:
  "treeDepth exampleGrid \<le> 32 \<and>
   ref_isVoxelSolid exampleGrid 1 2 3 \<and> ref_isVoxelSolid exampleGrid 4 0 0 \<and>
   \<not> ref_isVoxelSolid exampleGrid 5 0 0 \<and> ref_isVoxelSolid exampleGrid 7 3 3 \<and>
   \<not> ref_isVoxelSolid exampleGrid 0 4 0"
proof -
  have d: "treeDepth exampleGrid \<le> 32" by (simp add: exampleGrid_def)
  show ?thesis
    using d exampleGrid_voxels
      isVoxelSolid_is_reference_lookup[OF d, of 1 2 3]
      isVoxelSolid_is_reference_lookup[OF d, of 4 0 0]
      isVoxelSolid_is_reference_lookup[OF d, of 5 0 0]
      isVoxelSolid_is_reference_lookup[OF d, of 7 3 3]
      isVoxelSolid_is_reference_lookup[OF d, of 0 4 0]
    by simp
qed

text \<open>
  The claim as stated fails on a tree of 33 levels. The shift \<^verbatim>\<open>blockX >>> level\<close>
  uses \<open>level mod 32\<close> as its count, so at level 32 the code reads bit 0 of the block
  coordinate 1 and takes octant 1, which leads to the mixed leaf and an empty voxel; bit
  32 of the block coordinate is 0, so the lookup of the claim takes octant 0, which
  leads to the solid block.
\<close>

theorem deep_tree_lookup_counterexample:
  "0 \<le> (5::int) \<and> 5 < numVoxelsX deepGrid \<and>
   0 < numVoxelsY deepGrid \<and> 0 < numVoxelsZ deepGrid \<and>
   isVoxelSolid deepGrid 5 0 0 = False \<and> ref_isVoxelSolid deepGrid 5 0 0 = True"
  unfolding deepGrid_def by code_simp

section \<open>The solid-leaf sentinel\<close>

lemma traverse_sentinel:
  "u32_at ns idx = SOLID_LEAF_MARKER \<Longrightarrow> traverse ns ld b v level idx"
proof -
  assume s: "u32_at ns idx = SOLID_LEAF_MARKER"
  obtain bx "by" bz where b: "b = (bx, by, bz)" by (cases b)
  obtain ix iy iz where v: "v = (ix, iy, iz)" by (cases v)
  show ?thesis unfolding b v by (subst traverse.simps) (simp add: s)
qed

lemma traverse_descend:
  assumes "level \<ge> 0" "u32_at ns idx \<noteq> SOLID_LEAF_MARKER"
    "drop_bit 24 (u32_at ns idx) AND 0xFF \<noteq> 0"
    "(drop_bit 24 (u32_at ns idx) AND 0xFF) AND push_bit (stepOctant level b) 1 \<noteq> 0"
  shows "traverse ns ld b v level idx
           = traverse ns ld b v (level - 1) (stepChild (u32_at ns idx) (stepOctant level b))"
proof -
  obtain bx "by" bz where b: "b = (bx, by, bz)" by (cases b)
  obtain ix iy iz where v: "v = (ix, iy, iz)" by (cases v)
  show ?thesis
    using assms unfolding b v
    by (subst traverse.simps) (simp add: stepOctant_def stepChild_def Let_def)
qed

lemma reaches_traverse:
  "reaches ns b depth level idx \<Longrightarrow>
     traverse ns ld b v (depth - 1) 0 = traverse ns ld b v level idx"
proof (induction rule: reaches.induct)
  case reaches_root
  show ?case by simp
next
  case (reaches_child level idx)
  then show ?case by (simp add: traverse_descend)
qed

text \<open>
  Claim C2. For every node array and every in-range voxel index, when the traversal
  reaches, at any level including the leaf level after the loop, a node whose word is
  exactly \<open>0xFF000000\<close>, \<open>isVoxelSolid\<close> returns true: the word is never taken for an
  interior node or a mixed leaf.
\<close>

theorem sentinel_always_solid:
  assumes "nodes c \<noteq> []"
    and "0 \<le> ix" "ix < numVoxelsX c" "0 \<le> iy" "iy < numVoxelsY c" "0 \<le> iz" "iz < numVoxelsZ c"
    and "reaches (nodes c)
           (blockCoord ix (leafSize c), blockCoord iy (leafSize c), blockCoord iz (leafSize c))
           (treeDepth c) level idx"
    and "u32_at (nodes c) idx = SOLID_LEAF_MARKER"
  shows "isVoxelSolid c ix iy iz"
  using assms reaches_traverse[OF assms(8)] traverse_sentinel[OF assms(9)]
  by (simp add: isVoxelSolid_def)

lemma ex_reach: "reaches (nodes exampleGrid) (0, 0, 0) 1 (-1) 1"
proof -
  have r0: "reaches (nodes exampleGrid) (0, 0, 0) 1 (1 - 1) 0" by (rule reaches_root)
  have o: "stepOctant 0 (0, 0, 0) = 0" by (simp add: stepOctant_def)
  have n0: "u32_at (nodes exampleGrid) 0 = 0x03000001" by (simp add: exampleGrid_def u32_at_def)
  have ch: "stepChild 0x03000001 0 = 1" by (simp add: stepChild_def popcount_def)
  have "reaches (nodes exampleGrid) (0, 0, 0) 1 (0 - 1)
          (stepChild (u32_at (nodes exampleGrid) 0) (stepOctant 0 (0, 0, 0)))"
    by (rule reaches_child) (use r0 in \<open>simp_all add: n0 o SOLID_LEAF_MARKER_def\<close>)
  then show ?thesis by (simp add: n0 o ch)
qed

theorem sentinel_always_solid_witness:
  "nodes exampleGrid \<noteq> [] \<and> (0::int) \<le> 1 \<and> 1 < numVoxelsX exampleGrid \<and>
   (0::int) \<le> 2 \<and> 2 < numVoxelsY exampleGrid \<and> (0::int) \<le> 3 \<and> 3 < numVoxelsZ exampleGrid \<and>
   reaches (nodes exampleGrid) (0, 0, 0) 1 (- 1) 1 \<and>
   u32_at (nodes exampleGrid) 1 = SOLID_LEAF_MARKER \<and>
   isVoxelSolid exampleGrid 1 2 3"
proof -
  have g: "nodes exampleGrid \<noteq> []" "(0::int) \<le> 1" "1 < numVoxelsX exampleGrid"
    "(0::int) \<le> 2" "2 < numVoxelsY exampleGrid" "(0::int) \<le> 3" "3 < numVoxelsZ exampleGrid"
    by (simp_all add: exampleGrid_def)
  have b: "(blockCoord 1 (leafSize exampleGrid), blockCoord 2 (leafSize exampleGrid),
            blockCoord 3 (leafSize exampleGrid)) = (0, 0, 0)"
    and d: "treeDepth exampleGrid = 1"
    by (simp_all add: exampleGrid_def blockCoord_def)
  have r: "reaches (nodes exampleGrid)
             (blockCoord 1 (leafSize exampleGrid), blockCoord 2 (leafSize exampleGrid),
              blockCoord 3 (leafSize exampleGrid)) (treeDepth exampleGrid) (- 1) 1"
    unfolding b d by (rule ex_reach)
  have s: "u32_at (nodes exampleGrid) 1 = SOLID_LEAF_MARKER"
    by (simp add: exampleGrid_def u32_at_def SOLID_LEAF_MARKER_def)
  show ?thesis
    using sentinel_always_solid[OF g r s] g ex_reach s by simp
qed

section \<open>Out-of-range indices, unloaded grids and the output parameter\<close>

lemma fold_unchanged: "(\<And>x. x \<in> set xs \<Longrightarrow> f x b = b) \<Longrightarrow> fold f xs b = b"
  by (induction xs) simp_all

lemma keepDeepest_None [simp]: "keepDeepest None best = best"
  by (simp add: keepDeepest_def)

lemma sphereVoxelPush_not_solid:
  "\<not> isVoxelSolid c ix iy iz \<Longrightarrow> sphereVoxelPush c cx cy cz radius ix iy iz = None"
  by (simp add: sphereVoxelPush_def)

lemma capsuleVoxelPush_not_solid:
  "\<not> isVoxelSolid c ix iy iz \<Longrightarrow> capsuleVoxelPush c cx cy cz h radius ix iy iz = None"
  by (simp add: capsuleVoxelPush_def)

lemma resolve_nothing_solid:
  assumes "\<And>ix iy iz.
     \<lfloor>(cx - radius - gridMinX c) / voxelResolution c\<rfloor> \<le> ix \<Longrightarrow>
     \<lfloor>(cy - radius - gridMinY c) / voxelResolution c\<rfloor> \<le> iy \<Longrightarrow>
     \<lfloor>(cz - radius - gridMinZ c) / voxelResolution c\<rfloor> \<le> iz \<Longrightarrow>
     \<not> isVoxelSolid c ix iy iz"
  shows "resolveDeepestPenetration c cx cy cz radius = (False, c)"
proof -
  have "fold (\<lambda>iz. fold (\<lambda>iy. fold (\<lambda>ix.
          keepDeepest (sphereVoxelPush c cx cy cz radius ix iy iz))
          [\<lfloor>(cx - radius - gridMinX c) / voxelResolution c\<rfloor>..ixMax])
          [\<lfloor>(cy - radius - gridMinY c) / voxelResolution c\<rfloor>..iyMax])
          [\<lfloor>(cz - radius - gridMinZ c) / voxelResolution c\<rfloor>..izMax] initialBest = initialBest"
    for ixMax iyMax izMax
    by (intro fold_unchanged) (simp add: sphereVoxelPush_not_solid assms)
  then show ?thesis
    by (simp add: resolveDeepestPenetration_def Let_def initialBest_def)
qed

lemma resolveCapsule_nothing_solid:
  assumes "\<And>ix iy iz.
     \<lfloor>(cx - radius - gridMinX c) / voxelResolution c\<rfloor> \<le> ix \<Longrightarrow>
     \<lfloor>(cy - h - radius - gridMinY c) / voxelResolution c\<rfloor> \<le> iy \<Longrightarrow>
     \<lfloor>(cz - radius - gridMinZ c) / voxelResolution c\<rfloor> \<le> iz \<Longrightarrow>
     \<not> isVoxelSolid c ix iy iz"
  shows "resolveDeepestPenetrationCapsule c cx cy cz h radius = (False, c)"
proof -
  have "fold (\<lambda>iz. fold (\<lambda>iy. fold (\<lambda>ix.
          keepDeepest (capsuleVoxelPush c cx cy cz h radius ix iy iz))
          [\<lfloor>(cx - radius - gridMinX c) / voxelResolution c\<rfloor>..ixMax])
          [\<lfloor>(cy - h - radius - gridMinY c) / voxelResolution c\<rfloor>..iyMax])
          [\<lfloor>(cz - radius - gridMinZ c) / voxelResolution c\<rfloor>..izMax] initialBest = initialBest"
    for ixMax iyMax izMax
    by (intro fold_unchanged) (simp add: capsuleVoxelPush_not_solid assms)
  then show ?thesis
    by (simp add: resolveDeepestPenetrationCapsule_def Let_def initialBest_def)
qed

lemma isVoxelSolid_no_nodes: "nodes c = [] \<Longrightarrow> \<not> isVoxelSolid c ix iy iz"
  by (simp add: isVoxelSolid_def)

text \<open>
  Claim C4. For every grid, \<open>isVoxelSolid\<close> is false for an index that is negative or at
  least \<open>numVoxels\<close> on some axis (an index equal to \<open>numVoxels\<close> included), whatever the
  node arrays hold; and on a grid whose node array is empty \<open>queryPoint\<close>, \<open>querySphere\<close>
  and \<open>queryCapsule\<close> report no collision and change nothing. No path of these functions
  throws: a read past the end of a typed array yields 0.
\<close>

theorem out_of_range_and_unloaded:
  "(ix < 0 \<or> iy < 0 \<or> iz < 0 \<or> ix \<ge> numVoxelsX c \<or> iy \<ge> numVoxelsY c \<or> iz \<ge> numVoxelsZ c
      \<longrightarrow> \<not> isVoxelSolid c ix iy iz) \<and>
   (nodes c = [] \<longrightarrow>
      \<not> queryPoint c x y z \<and>
      querySphere c cx cy cz radius out = (False, c, out) \<and>
      queryCapsule c cx cy cz halfHeight radius out = (False, c, out))"
  by (auto simp: isVoxelSolid_def queryPoint_def querySphere_def queryCapsule_def)

theorem out_of_range_and_unloaded_witness:
  "\<not> isVoxelSolid exampleGrid 8 0 0 \<and> \<not> isVoxelSolid exampleGrid 0 (- 1) 0 \<and>
   \<not> isVoxelSolid exampleGrid 0 0 8 \<and> nodes emptyGrid = [] \<and>
   \<not> queryPoint emptyGrid (1 / 2) (1 / 2) (1 / 2) \<and>
   querySphere emptyGrid (1 / 2) (1 / 2) (1 / 2) 1 zeroPush = (False, emptyGrid, zeroPush) \<and>
   queryCapsule emptyGrid (1 / 2) (1 / 2) (1 / 2) 1 1 zeroPush = (False, emptyGrid, zeroPush)"
proof -
  have x: "(8::int) \<ge> numVoxelsX exampleGrid" "(8::int) \<ge> numVoxelsZ exampleGrid"
    by (simp_all add: exampleGrid_def)
  have e: "nodes emptyGrid = []" by (simp add: emptyGrid_def)
  show ?thesis
    using out_of_range_and_unloaded[of 8 0 0 exampleGrid]
      out_of_range_and_unloaded[of 0 "- 1" 0 exampleGrid]
      out_of_range_and_unloaded[of 0 0 8 exampleGrid]
      out_of_range_and_unloaded[of 0 0 0 emptyGrid "1 / 2" "1 / 2" "1 / 2" "1 / 2" "1 / 2" "1 / 2"
        1 zeroPush 1]
      x e
    by simp
qed

text \<open>
  Claim C6. Whenever \<open>querySphere\<close> or \<open>queryCapsule\<close> returns false, the caller's \<open>out\<close>
  object after the call is the object before the call: all three components keep their
  values.
\<close>

theorem out_untouched_without_collision:
  "(\<not> fst (querySphere c cx cy cz radius out)
      \<longrightarrow> snd (snd (querySphere c cx cy cz radius out)) = out) \<and>
   (\<not> fst (queryCapsule c cx cy cz halfHeight radius out)
      \<longrightarrow> snd (snd (queryCapsule c cx cy cz halfHeight radius out)) = out)"
  by (simp add: querySphere_def queryCapsule_def finishQuery_def Let_def)

lemma unitGrid_far:
  "resolveDeepestPenetration unitGrid 5 5 5 (1 / 4) = (False, unitGrid)"
  by (rule resolve_nothing_solid) (simp add: isVoxelSolid_def unitGrid_def)

lemma unitGrid_far_capsule:
  "resolveDeepestPenetrationCapsule unitGrid 5 5 5 (1 / 2) (1 / 4) = (False, unitGrid)"
  by (rule resolveCapsule_nothing_solid) (simp add: isVoxelSolid_def unitGrid_def)

lemma querySphere_far:
  "querySphere unitGrid 5 5 5 (1 / 4) out = (False, unitGrid, out)"
  by (simp add: querySphere_def querySphereLoop.simps[of _ 0] maxIterations_def initialState_def
      unitGrid_far finishQuery_def)

lemma queryCapsule_far:
  "queryCapsule unitGrid 5 5 5 (1 / 2) (1 / 4) out = (False, unitGrid, out)"
  by (simp add: queryCapsule_def queryCapsuleLoop.simps[of _ _ 0] maxIterations_def initialState_def
      unitGrid_far_capsule finishQuery_def)

theorem out_untouched_without_collision_witness:
  "\<not> fst (querySphere unitGrid 5 5 5 (1 / 4) \<lparr>pushX = 7, pushY = 8, pushZ = 9\<rparr>) \<and>
   snd (snd (querySphere unitGrid 5 5 5 (1 / 4) \<lparr>pushX = 7, pushY = 8, pushZ = 9\<rparr>))
     = \<lparr>pushX = 7, pushY = 8, pushZ = 9\<rparr> \<and>
   \<not> fst (queryCapsule unitGrid 5 5 5 (1 / 2) (1 / 4) \<lparr>pushX = 7, pushY = 8, pushZ = 9\<rparr>) \<and>
   snd (snd (queryCapsule unitGrid 5 5 5 (1 / 2) (1 / 4) \<lparr>pushX = 7, pushY = 8, pushZ = 9\<rparr>))
     = \<lparr>pushX = 7, pushY = 8, pushZ = 9\<rparr>"
  using out_untouched_without_collision[of unitGrid 5 5 5 "1 / 4"
      "\<lparr>pushX = 7, pushY = 8, pushZ = 9\<rparr>" "1 / 2"]
  by (simp add: querySphere_far queryCapsule_far)

section \<open>The query loops against the reference iteration\<close>

lemma sameGrid_refl: "sameGrid c c"
  by (simp add: sameGrid_def)

lemma sameGrid_scratch:
  "sameGrid c c' \<Longrightarrow> sameGrid c (c'\<lparr>push_scratch := p\<rparr>)"
  "sameGrid c c' \<Longrightarrow> sameGrid c (c'\<lparr>constraintNormals := n\<rparr>)"
  unfolding sameGrid_def
  by (metis (no_types) VoxelCollider.surjective VoxelCollider.update_convs(12,13)
      VoxelCollider.select_convs(12,13))+

lemma sameGrid_cases:
  assumes "sameGrid c c'"
  obtains p n where "c' = c\<lparr>push_scratch := p, constraintNormals := n\<rparr>"
  using assms unfolding sameGrid_def by blast

lemma scratch_fields:
  "gridMinX (c\<lparr>push_scratch := p, constraintNormals := n\<rparr>) = gridMinX c"
  "gridMinY (c\<lparr>push_scratch := p, constraintNormals := n\<rparr>) = gridMinY c"
  "gridMinZ (c\<lparr>push_scratch := p, constraintNormals := n\<rparr>) = gridMinZ c"
  "numVoxelsX (c\<lparr>push_scratch := p, constraintNormals := n\<rparr>) = numVoxelsX c"
  "numVoxelsY (c\<lparr>push_scratch := p, constraintNormals := n\<rparr>) = numVoxelsY c"
  "numVoxelsZ (c\<lparr>push_scratch := p, constraintNormals := n\<rparr>) = numVoxelsZ c"
  "voxelResolution (c\<lparr>push_scratch := p, constraintNormals := n\<rparr>) = voxelResolution c"
  "leafSize (c\<lparr>push_scratch := p, constraintNormals := n\<rparr>) = leafSize c"
  "treeDepth (c\<lparr>push_scratch := p, constraintNormals := n\<rparr>) = treeDepth c"
  "nodes (c\<lparr>push_scratch := p, constraintNormals := n\<rparr>) = nodes c"
  "leafData (c\<lparr>push_scratch := p, constraintNormals := n\<rparr>) = leafData c"
  by simp_all

lemma isVoxelSolid_scratch:
  "isVoxelSolid (c\<lparr>push_scratch := p, constraintNormals := n\<rparr>) = isVoxelSolid c"
  by (intro ext) (simp only: isVoxelSolid_def scratch_fields)

lemma sphereVoxelPush_scratch:
  "sphereVoxelPush (c\<lparr>push_scratch := p, constraintNormals := n\<rparr>) = sphereVoxelPush c"
  by (intro ext) (simp only: sphereVoxelPush_def isVoxelSolid_scratch scratch_fields)

lemma resolve_unfold:
  "resolveDeepestPenetration c cx cy cz radius =
     (found (sphereBest c cx cy cz radius),
      if found (sphereBest c cx cy cz radius)
      then c\<lparr>push_scratch := bestPush (sphereBest c cx cy cz radius)\<rparr> else c)"
  unfolding resolveDeepestPenetration_def sphereBest_def bestPush_def Let_def ..

lemma sphereBest_scratch:
  "sphereBest (c\<lparr>push_scratch := p, constraintNormals := n\<rparr>) = sphereBest c"
  by (intro ext) (simp only: sphereBest_def sphereVoxelPush_scratch scratch_fields)

lemma capsuleVoxelPush_scratch:
  "capsuleVoxelPush (c\<lparr>push_scratch := p, constraintNormals := n\<rparr>) = capsuleVoxelPush c"
  by (intro ext) (simp only: capsuleVoxelPush_def isVoxelSolid_scratch scratch_fields)

lemma resolveCapsule_unfold:
  "resolveDeepestPenetrationCapsule c cx cy cz halfHeight radius =
     (found (capsuleBest c cx cy cz halfHeight radius),
      if found (capsuleBest c cx cy cz halfHeight radius)
      then c\<lparr>push_scratch := bestPush (capsuleBest c cx cy cz halfHeight radius)\<rparr> else c)"
  unfolding resolveDeepestPenetrationCapsule_def capsuleBest_def bestPush_def Let_def ..

lemma capsuleBest_scratch:
  "capsuleBest (c\<lparr>push_scratch := p, constraintNormals := n\<rparr>) = capsuleBest c"
  by (intro ext) (simp only: capsuleBest_def capsuleVoxelPush_scratch scratch_fields)

lemma resolve_sameGrid:
  assumes "sameGrid c c'"
  shows "resolveDeepestPenetration c' x y z r =
           (fst (resolveDeepestPenetration c x y z r),
            if fst (resolveDeepestPenetration c x y z r)
            then c'\<lparr>push_scratch := push_scratch (snd (resolveDeepestPenetration c x y z r))\<rparr>
            else c')"
proof -
  obtain p n where c': "c' = c\<lparr>push_scratch := p, constraintNormals := n\<rparr>"
    using assms by (rule sameGrid_cases)
  have b: "sphereBest c' = sphereBest c" unfolding c' by (rule sphereBest_scratch)
  show ?thesis
    unfolding resolve_unfold b by simp
qed

lemma resolveCapsule_sameGrid:
  assumes "sameGrid c c'"
  shows "resolveDeepestPenetrationCapsule c' x y z h r =
           (fst (resolveDeepestPenetrationCapsule c x y z h r),
            if fst (resolveDeepestPenetrationCapsule c x y z h r)
            then c'\<lparr>push_scratch := push_scratch (snd (resolveDeepestPenetrationCapsule c x y z h r))\<rparr>
            else c')"
proof -
  obtain p n where c': "c' = c\<lparr>push_scratch := p, constraintNormals := n\<rparr>"
    using assms by (rule sameGrid_cases)
  have b: "capsuleBest c' = capsuleBest c" unfolding c' by (rule capsuleBest_scratch)
  show ?thesis
    unfolding resolveCapsule_unfold b by simp
qed

lemma projectOut_spec:
  "projectOut normals n p = project_against (map (\<lambda>i. vecOf (normalAt normals i)) [0..<n]) p"
proof -
  have "(\<lambda>i (px, py, pz).
             (let nrm = normalAt normals i;
                  dot = px * pushX nrm + py * pushY nrm + pz * pushZ nrm
              in if dot < 0
                 then (px - dot * pushX nrm, py - dot * pushY nrm, pz - dot * pushZ nrm)
                 else (px, py, pz)))
        = remove_component \<circ> (\<lambda>i. vecOf (normalAt normals i))"
    by (intro ext) (simp add: remove_component_def dot3_def vecOf_def Let_def split: prod.splits)
  then show ?thesis
    by (simp add: projectOut_def project_against_def fold_map)
qed

lemma normalAt_store:
  "normalAt (normalStore normals n v) i = (if i = n \<or> (2 \<le> i \<and> 2 \<le> n) then v else normalAt normals i)"
proof -
  obtain n0 n1 n2 where "normals = (n0, n1, n2)" by (cases normals) auto
  then show ?thesis by (simp add: normalAt_def normalStore_def)
qed

lemma recorded_store:
  assumes "n < 3"
  shows "recorded (c\<lparr>constraintNormals := normalStore (constraintNormals c) n v\<rparr>) (Suc n)
           = recorded c n @ [vecOf v]"
proof -
  have "map (\<lambda>i. vecOf (normalAt (normalStore (constraintNormals c) n v) i)) [0..<n]
          = map (\<lambda>i. vecOf (normalAt (constraintNormals c) i)) [0..<n]"
    by (rule map_cong) (use assms in \<open>simp_all add: normalAt_store\<close>)
  then show ?thesis by (simp add: recorded_def normalAt_store)
qed

lemma recorded_push [simp]: "recorded (c\<lparr>push_scratch := p\<rparr>) n = recorded c n"
  by (simp add: recorded_def)

lemma vecOf_scaled:
  "vecOf \<lparr>pushX = pushX p * k, pushY = pushY p * k, pushZ = pushZ p * k\<rparr> = scale3 k (vecOf p)"
  by (simp add: vecOf_def scale3_def)

lemma applyPush_spec:
  assumes "numNormals st \<le> 3"
  shows "case applyPush c st of (c', st') \<Rightarrow>
     (let push = vecOf (push_scratch c);
          applied = project_against (recorded c (numNormals st)) push;
          store = (length3 push > PENETRATION_EPSILON \<and> numNormals st < 3)
      in posOf st' = add3 (posOf st) applied \<and> totalOf st' = add3 (totalOf st) applied \<and>
         hadCollision st' \<and> numNormals st' \<le> 3 \<and>
         numNormals st' = (if store then Suc (numNormals st) else numNormals st) \<and>
         recorded c' (numNormals st') =
           (if store then recorded c (numNormals st) @ [scale3 (1 / length3 push) push]
            else recorded c (numNormals st)) \<and>
         push_scratch c' = push_scratch c \<and>
         c' = c\<lparr>constraintNormals := constraintNormals c'\<rparr>)"
proof -
  define P where "P = push_scratch c"
  have len: "sqrt (pushX P * pushX P + pushY P * pushY P + pushZ P * pushZ P) = length3 (vecOf P)"
    by (simp add: length3_def dot3_def vecOf_def)
  obtain px py pz where pr: "project_against (recorded c (numNormals st)) (vecOf P) = (px, py, pz)"
    by (cases "project_against (recorded c (numNormals st)) (vecOf P)")
  then have po: "projectOut (constraintNormals c) (numNormals st) (pushX P, pushY P, pushZ P)
                   = (px, py, pz)"
    by (simp add: projectOut_spec recorded_def vecOf_def)
  show ?thesis
    using assms unfolding applyPush_def P_def[symmetric] Let_def
    apply (simp add: po pr len posOf_def totalOf_def add3_def recorded_store)
    apply (simp add: vecOf_def scale3_def P_def)
    done
qed

lemma sphereResolver_eq:
  "sphereResolver c r (posOf st) =
     (if fst (resolveDeepestPenetration c (resolvedX st) (resolvedY st) (resolvedZ st) r)
      then Some (vecOf (push_scratch (snd (resolveDeepestPenetration c (resolvedX st) (resolvedY st) (resolvedZ st) r))))
      else None)"
  by (simp add: sphereResolver_def posOf_def Let_def)

lemma capsuleResolver_eq:
  "capsuleResolver c h r (posOf st) =
     (if fst (resolveDeepestPenetrationCapsule c (resolvedX st) (resolvedY st) (resolvedZ st) h r)
      then Some (vecOf (push_scratch (snd (resolveDeepestPenetrationCapsule c (resolvedX st) (resolvedY st) (resolvedZ st) h r))))
      else None)"
  by (simp add: capsuleResolver_def posOf_def Let_def)

lemma sphereLoop_spec:
  assumes "sameGrid c c'" "numNormals st \<le> 3" "k = maxIterations - iter"
  shows "sameGrid c (fst (querySphereLoop r iter c' st)) \<and>
         (hadCollision (snd (querySphereLoop r iter c' st)),
          totalOf (snd (querySphereLoop r iter c' st)))
           = iterate_contacts (sphereResolver c r) k (posOf st)
               (recorded c' (numNormals st)) (totalOf st) (hadCollision st)"
  using assms
proof (induction k arbitrary: iter c' st)
  case 0
  then have "\<not> iter < maxIterations" by simp
  then show ?case using "0.prems"(1) by (simp add: querySphereLoop.simps)
next
  case (Suc k)
  then have it: "iter < maxIterations" and k: "k = maxIterations - (iter + 1)" by simp_all
  let ?res = "resolveDeepestPenetration c (resolvedX st) (resolvedY st) (resolvedZ st) r"
  note rs = resolve_sameGrid[OF Suc.prems(1), of "resolvedX st" "resolvedY st" "resolvedZ st" r]
  show ?case
  proof (cases "fst ?res")
    case False
    then show ?thesis
      using it Suc.prems(1)
      by (subst (1 2 3) querySphereLoop.simps) (simp add: rs sphereResolver_eq Let_def)
  next
    case True
    define c1 where "c1 = c'\<lparr>push_scratch := push_scratch (snd ?res)\<rparr>"
    have sg1: "sameGrid c c1" unfolding c1_def by (rule sameGrid_scratch(1)[OF Suc.prems(1)])
    obtain c2 st2 where ap: "applyPush c1 st = (c2, st2)" by (cases "applyPush c1 st")
    note sp = applyPush_spec[OF Suc.prems(2), of c1, unfolded ap prod.case Let_def]
    have p1: "push_scratch c1 = push_scratch (snd ?res)" by (simp add: c1_def)
    have rc1: "recorded c1 (numNormals st) = recorded c' (numNormals st)" by (simp add: c1_def)
    have "c2 = c1\<lparr>constraintNormals := constraintNormals c2\<rparr>" using sp by blast
    then have sg2: "sameGrid c c2" using sameGrid_scratch(2)[OF sg1] by metis
    have n2: "numNormals st2 \<le> 3" using sp by blast
    have step: "querySphereLoop r iter c' st = querySphereLoop r (iter + 1) c2 st2"
      using it True
      by (subst querySphereLoop.simps) (simp add: rs Let_def c1_def[symmetric] ap)
    have len: "length (recorded c' (numNormals st)) = numNormals st" by (simp add: recorded_def)
    define push where "push = vecOf (push_scratch (snd ?res))"
    define applied where "applied = project_against (recorded c' (numNormals st)) push"
    define store where "store = (length3 push > PENETRATION_EPSILON \<and> numNormals st < 3)"
    have pos2: "posOf st2 = add3 (posOf st) applied"
      and tot2: "totalOf st2 = add3 (totalOf st) applied"
      and had2': "hadCollision st2"
      and rec2: "recorded c2 (numNormals st2) =
                   (if store then recorded c' (numNormals st) @ [scale3 (1 / length3 push) push]
                    else recorded c' (numNormals st))"
      using sp unfolding p1 rc1 push_def[symmetric] applied_def[symmetric] store_def[symmetric]
      by blast+
    have had2: "hadCollision st2 = True" using had2' by simp
    have rhs: "iterate_contacts (sphereResolver c r) (Suc k) (posOf st)
                 (recorded c' (numNormals st)) (totalOf st) (hadCollision st)
               = iterate_contacts (sphereResolver c r) k (posOf st2)
                   (recorded c2 (numNormals st2)) (totalOf st2) (hadCollision st2)"
      unfolding pos2 tot2 had2 rec2
      using True
      by (simp add: sphereResolver_eq Let_def len push_def[symmetric] applied_def[symmetric]
          store_def[symmetric])
    show ?thesis
      unfolding step rhs using Suc.IH[OF sg2 n2 k] by simp
  qed
qed

lemma capsuleLoop_spec:
  assumes "sameGrid c c'" "numNormals st \<le> 3" "k = maxIterations - iter"
  shows "sameGrid c (fst (queryCapsuleLoop h r iter c' st)) \<and>
         (hadCollision (snd (queryCapsuleLoop h r iter c' st)),
          totalOf (snd (queryCapsuleLoop h r iter c' st)))
           = iterate_contacts (capsuleResolver c h r) k (posOf st)
               (recorded c' (numNormals st)) (totalOf st) (hadCollision st)"
  using assms
proof (induction k arbitrary: iter c' st)
  case 0
  then have "\<not> iter < maxIterations" by simp
  then show ?case using "0.prems"(1) by (simp add: queryCapsuleLoop.simps)
next
  case (Suc k)
  then have it: "iter < maxIterations" and k: "k = maxIterations - (iter + 1)" by simp_all
  let ?res = "resolveDeepestPenetrationCapsule c (resolvedX st) (resolvedY st) (resolvedZ st) h r"
  note rs = resolveCapsule_sameGrid[OF Suc.prems(1), of "resolvedX st" "resolvedY st" "resolvedZ st" h r]
  show ?case
  proof (cases "fst ?res")
    case False
    then show ?thesis
      using it Suc.prems(1)
      by (subst (1 2 3) queryCapsuleLoop.simps) (simp add: rs capsuleResolver_eq Let_def)
  next
    case True
    define c1 where "c1 = c'\<lparr>push_scratch := push_scratch (snd ?res)\<rparr>"
    have sg1: "sameGrid c c1" unfolding c1_def by (rule sameGrid_scratch(1)[OF Suc.prems(1)])
    obtain c2 st2 where ap: "applyPush c1 st = (c2, st2)" by (cases "applyPush c1 st")
    note sp = applyPush_spec[OF Suc.prems(2), of c1, unfolded ap prod.case Let_def]
    have p1: "push_scratch c1 = push_scratch (snd ?res)" by (simp add: c1_def)
    have rc1: "recorded c1 (numNormals st) = recorded c' (numNormals st)" by (simp add: c1_def)
    have "c2 = c1\<lparr>constraintNormals := constraintNormals c2\<rparr>" using sp by blast
    then have sg2: "sameGrid c c2" using sameGrid_scratch(2)[OF sg1] by metis
    have n2: "numNormals st2 \<le> 3" using sp by blast
    have step: "queryCapsuleLoop h r iter c' st = queryCapsuleLoop h r (iter + 1) c2 st2"
      using it True
      by (subst queryCapsuleLoop.simps) (simp add: rs Let_def c1_def[symmetric] ap)
    have len: "length (recorded c' (numNormals st)) = numNormals st" by (simp add: recorded_def)
    define push where "push = vecOf (push_scratch (snd ?res))"
    define applied where "applied = project_against (recorded c' (numNormals st)) push"
    define store where "store = (length3 push > PENETRATION_EPSILON \<and> numNormals st < 3)"
    have pos2: "posOf st2 = add3 (posOf st) applied"
      and tot2: "totalOf st2 = add3 (totalOf st) applied"
      and had2': "hadCollision st2"
      and rec2: "recorded c2 (numNormals st2) =
                   (if store then recorded c' (numNormals st) @ [scale3 (1 / length3 push) push]
                    else recorded c' (numNormals st))"
      using sp unfolding p1 rc1 push_def[symmetric] applied_def[symmetric] store_def[symmetric]
      by blast+
    have had2: "hadCollision st2 = True" using had2' by simp
    have rhs: "iterate_contacts (capsuleResolver c h r) (Suc k) (posOf st)
                 (recorded c' (numNormals st)) (totalOf st) (hadCollision st)
               = iterate_contacts (capsuleResolver c h r) k (posOf st2)
                   (recorded c2 (numNormals st2)) (totalOf st2) (hadCollision st2)"
      unfolding pos2 tot2 had2 rec2
      using True
      by (simp add: capsuleResolver_eq Let_def len push_def[symmetric] applied_def[symmetric]
          store_def[symmetric])
    show ?thesis
      unfolding step rhs using Suc.IH[OF sg2 n2 k] by simp
  qed
qed


lemma finishQuery_spec:
  "fst (finishQuery res out) = significant (hadCollision (snd res), totalOf (snd res))"
  "vecOf (snd (snd (finishQuery res out))) =
     (if significant (hadCollision (snd res), totalOf (snd res)) then totalOf (snd res)
      else vecOf out)"
  "fst (snd (finishQuery res out)) = fst res"
  by (simp_all add: finishQuery_def significant_def totalOf_def dot3_def vecOf_def Let_def)

lemma initialState_spec:
  "posOf (initialState cx cy cz) = (cx, cy, cz)"
  "totalOf (initialState cx cy cz) = (0, 0, 0)"
  "hadCollision (initialState cx cy cz) = False"
  "numNormals (initialState cx cy cz) = 0"
  by (simp_all add: initialState_def posOf_def totalOf_def)

lemma resolve_contacts_unloaded:
  assumes "resolver start = None"
  shows "resolve_contacts resolver start = (False, (0, 0, 0))"
proof -
  have "(4::nat) = Suc 3" by simp
  then show ?thesis using assms unfolding resolve_contacts_def by (simp only: iterate_contacts.simps option.case)
qed

lemma sphereResolver_unloaded:
  assumes "nodes c = []"
  shows "sphereResolver c r pos = None"
proof -
  obtain x y z where p: "pos = (x, y, z)" by (cases pos)
  have "resolveDeepestPenetration c x y z r = (False, c)"
    by (rule resolve_nothing_solid) (simp add: isVoxelSolid_no_nodes assms)
  then show ?thesis by (simp add: sphereResolver_def p)
qed

lemma capsuleResolver_unloaded:
  assumes "nodes c = []"
  shows "capsuleResolver c h r pos = None"
proof -
  obtain x y z where p: "pos = (x, y, z)" by (cases pos)
  have "resolveDeepestPenetrationCapsule c x y z h r = (False, c)"
    by (rule resolveCapsule_nothing_solid) (simp add: isVoxelSolid_no_nodes assms)
  then show ?thesis by (simp add: capsuleResolver_def p)
qed

lemma querySphere_spec:
  assumes "sameGrid c c'"
  shows "fst (querySphere c' cx cy cz r out)
           = significant (resolve_contacts (sphereResolver c r) (cx, cy, cz))"
    and "vecOf (snd (snd (querySphere c' cx cy cz r out)))
           = (if significant (resolve_contacts (sphereResolver c r) (cx, cy, cz))
              then snd (resolve_contacts (sphereResolver c r) (cx, cy, cz)) else vecOf out)"
    and "sameGrid c (fst (snd (querySphere c' cx cy cz r out)))"
proof -
  obtain p n where c': "c' = c\<lparr>push_scratch := p, constraintNormals := n\<rparr>"
    using assms by (rule sameGrid_cases)
  have nd: "nodes c' = nodes c" unfolding c' by simp
  have all: "fst (querySphere c' cx cy cz r out)
           = significant (resolve_contacts (sphereResolver c r) (cx, cy, cz)) \<and>
     vecOf (snd (snd (querySphere c' cx cy cz r out)))
           = (if significant (resolve_contacts (sphereResolver c r) (cx, cy, cz))
              then snd (resolve_contacts (sphereResolver c r) (cx, cy, cz)) else vecOf out) \<and>
     sameGrid c (fst (snd (querySphere c' cx cy cz r out)))"
  proof (cases "nodes c = []")
    case True
    show ?thesis
      using True assms
      by (simp add: querySphere_def nd resolve_contacts_unloaded sphereResolver_unloaded
          significant_def)
  next
    case False
    have k: "(4::nat) = maxIterations - 0" by (simp add: maxIterations_def)
    have n0: "numNormals (initialState cx cy cz) \<le> 3" by (simp add: initialState_spec)
    note ls = sphereLoop_spec[OF assms n0 k, of r, unfolded initialState_spec]
    have rec0: "recorded c' 0 = []" by (simp add: recorded_def)
    have eq: "iterate_contacts (sphereResolver c r) 4 (cx, cy, cz) [] (0, 0, 0) False
                = (hadCollision (snd (querySphereLoop r 0 c' (initialState cx cy cz))),
                   totalOf (snd (querySphereLoop r 0 c' (initialState cx cy cz))))"
      and sg: "sameGrid c (fst (querySphereLoop r 0 c' (initialState cx cy cz)))"
      using ls unfolding rec0 by simp_all
    show ?thesis
      using False sg
      by (simp add: querySphere_def nd finishQuery_spec resolve_contacts_def eq)
  qed
  show "fst (querySphere c' cx cy cz r out)
           = significant (resolve_contacts (sphereResolver c r) (cx, cy, cz))"
    and "vecOf (snd (snd (querySphere c' cx cy cz r out)))
           = (if significant (resolve_contacts (sphereResolver c r) (cx, cy, cz))
              then snd (resolve_contacts (sphereResolver c r) (cx, cy, cz)) else vecOf out)"
    and "sameGrid c (fst (snd (querySphere c' cx cy cz r out)))"
    using all by blast+
qed

lemma queryCapsule_spec:
  assumes "sameGrid c c'"
  shows "fst (queryCapsule c' cx cy cz h r out)
           = significant (resolve_contacts (capsuleResolver c h r) (cx, cy, cz))"
    and "vecOf (snd (snd (queryCapsule c' cx cy cz h r out)))
           = (if significant (resolve_contacts (capsuleResolver c h r) (cx, cy, cz))
              then snd (resolve_contacts (capsuleResolver c h r) (cx, cy, cz)) else vecOf out)"
    and "sameGrid c (fst (snd (queryCapsule c' cx cy cz h r out)))"
proof -
  obtain p n where c': "c' = c\<lparr>push_scratch := p, constraintNormals := n\<rparr>"
    using assms by (rule sameGrid_cases)
  have nd: "nodes c' = nodes c" unfolding c' by simp
  have all: "fst (queryCapsule c' cx cy cz h r out)
           = significant (resolve_contacts (capsuleResolver c h r) (cx, cy, cz)) \<and>
     vecOf (snd (snd (queryCapsule c' cx cy cz h r out)))
           = (if significant (resolve_contacts (capsuleResolver c h r) (cx, cy, cz))
              then snd (resolve_contacts (capsuleResolver c h r) (cx, cy, cz)) else vecOf out) \<and>
     sameGrid c (fst (snd (queryCapsule c' cx cy cz h r out)))"
  proof (cases "nodes c = []")
    case True
    show ?thesis
      using True assms
      by (simp add: queryCapsule_def nd resolve_contacts_unloaded capsuleResolver_unloaded
          significant_def)
  next
    case False
    have k: "(4::nat) = maxIterations - 0" by (simp add: maxIterations_def)
    have n0: "numNormals (initialState cx cy cz) \<le> 3" by (simp add: initialState_spec)
    note ls = capsuleLoop_spec[OF assms n0 k, of h r, unfolded initialState_spec]
    have rec0: "recorded c' 0 = []" by (simp add: recorded_def)
    have eq: "iterate_contacts (capsuleResolver c h r) 4 (cx, cy, cz) [] (0, 0, 0) False
                = (hadCollision (snd (queryCapsuleLoop h r 0 c' (initialState cx cy cz))),
                   totalOf (snd (queryCapsuleLoop h r 0 c' (initialState cx cy cz))))"
      and sg: "sameGrid c (fst (queryCapsuleLoop h r 0 c' (initialState cx cy cz)))"
      using ls unfolding rec0 by simp_all
    show ?thesis
      using False sg
      by (simp add: queryCapsule_def nd finishQuery_spec resolve_contacts_def eq)
  qed
  show "fst (queryCapsule c' cx cy cz h r out)
           = significant (resolve_contacts (capsuleResolver c h r) (cx, cy, cz))"
    and "vecOf (snd (snd (queryCapsule c' cx cy cz h r out)))
           = (if significant (resolve_contacts (capsuleResolver c h r) (cx, cy, cz))
              then snd (resolve_contacts (capsuleResolver c h r) (cx, cy, cz)) else vecOf out)"
    and "sameGrid c (fst (snd (queryCapsule c' cx cy cz h r out)))"
    using all by blast+
qed



section \<open>A sphere query evaluated on the single-voxel grid\<close>

lemma unitGrid_fields:
  "gridMinX unitGrid = 0" "gridMinY unitGrid = 0" "gridMinZ unitGrid = 0"
  "numVoxelsX unitGrid = 1" "numVoxelsY unitGrid = 1" "numVoxelsZ unitGrid = 1"
  "voxelResolution unitGrid = 1" "nodes unitGrid = [0xFF000000]"
  "push_scratch unitGrid = zeroPush" "constraintNormals unitGrid = (zeroPush, zeroPush, zeroPush)"
  by (simp_all add: unitGrid_def)

lemma unitGrid_solid: "isVoxelSolid unitGrid 0 0 0"
  by code_simp

lemma unitGrid_inside_push:
  "sphereVoxelPush unitGrid (1 / 2) (1 / 2) (1 / 2) (1 / 4) 0 0 0 = Some (3 / 4, 0, 0, 3 / 4)"
  by (simp add: sphereVoxelPush_def unitGrid_solid unitGrid_fields Let_def)

lemma unitGrid_inside_best:
  "sphereBest unitGrid (1 / 2) (1 / 2) (1 / 2) (1 / 4) =
     \<lparr>bestPushX = 3 / 4, bestPushY = 0, bestPushZ = 0, bestPenetration = 3 / 4, found = True\<rparr>"
  by (simp add: sphereBest_def unitGrid_fields unitGrid_inside_push keepDeepest_def initialBest_def
      PENETRATION_EPSILON_def)

lemma sqrt_9_16: "sqrt (9 / 16) = 3 / 4"
  by (rule real_sqrt_unique) (simp_all add: power2_eq_square)

lemma unitGrid_applyPush:
  "applyPush (unitGrid\<lparr>push_scratch := \<lparr>pushX = 3 / 4, pushY = 0, pushZ = 0\<rparr>\<rparr>)
     (initialState (1 / 2) (1 / 2) (1 / 2))
   = (unitGridPushed,
      \<lparr>resolvedX = 5 / 4, resolvedY = 1 / 2, resolvedZ = 1 / 2,
       totalPushX = 3 / 4, totalPushY = 0, totalPushZ = 0,
       hadCollision = True, numNormals = 1\<rparr>)"
  by (simp add: applyPush_def initialState_def projectOut_def Let_def sqrt_9_16
      PENETRATION_EPSILON_def unitGridPushed_def normalStore_def unitGrid_fields)

lemma unitGridPushed_clear:
  "resolveDeepestPenetration unitGridPushed (5 / 4) (1 / 2) (1 / 2) (1 / 4) = (False, unitGridPushed)"
  by (rule resolve_nothing_solid)
     (simp add: isVoxelSolid_def unitGridPushed_def unitGrid_def)

lemma querySphere_inside:
  "querySphere unitGrid (1 / 2) (1 / 2) (1 / 2) (1 / 4) out
     = (True, unitGridPushed, out\<lparr>pushX := 3 / 4, pushY := 0, pushZ := 0\<rparr>)"
proof -
  have r1: "resolveDeepestPenetration unitGrid (1 / 2) (1 / 2) (1 / 2) (1 / 4)
              = (True, unitGrid\<lparr>push_scratch := \<lparr>pushX = 3 / 4, pushY = 0, pushZ = 0\<rparr>\<rparr>)"
    by (simp add: resolve_unfold unitGrid_inside_best bestPush_def)
  have i0: "resolvedX (initialState (1 / 2) (1 / 2) (1 / 2)) = 1 / 2"
    "resolvedY (initialState (1 / 2) (1 / 2) (1 / 2)) = 1 / 2"
    "resolvedZ (initialState (1 / 2) (1 / 2) (1 / 2)) = 1 / 2"
    by (simp_all add: initialState_def)
  have l1: "querySphereLoop (1 / 4) 1 unitGridPushed
              \<lparr>resolvedX = 5 / 4, resolvedY = 1 / 2, resolvedZ = 1 / 2,
               totalPushX = 3 / 4, totalPushY = 0, totalPushZ = 0,
               hadCollision = True, numNormals = 1\<rparr>
            = (unitGridPushed,
               \<lparr>resolvedX = 5 / 4, resolvedY = 1 / 2, resolvedZ = 1 / 2,
                totalPushX = 3 / 4, totalPushY = 0, totalPushZ = 0,
                hadCollision = True, numNormals = 1\<rparr>)"
    by (subst querySphereLoop.simps) (simp add: maxIterations_def unitGridPushed_clear)
  have l0: "querySphereLoop (1 / 4) 0 unitGrid (initialState (1 / 2) (1 / 2) (1 / 2))
            = (unitGridPushed,
               \<lparr>resolvedX = 5 / 4, resolvedY = 1 / 2, resolvedZ = 1 / 2,
                totalPushX = 3 / 4, totalPushY = 0, totalPushZ = 0,
                hadCollision = True, numNormals = 1\<rparr>)"
    using l1
    by (subst querySphereLoop.simps) (simp add: maxIterations_def i0 r1 unitGrid_applyPush)
  show ?thesis
    by (simp add: querySphere_def unitGrid_fields l0 finishQuery_def PENETRATION_EPSILON_def)
qed

section \<open>Iterative resolution and what a query writes\<close>

text \<open>
  Claim C3. \<open>querySphere\<close> and \<open>queryCapsule\<close> compute the reference contact iteration
  over their resolver: at most four rounds, stopping at the first round without
  penetration; in each round the push is projected against the recorded unit normals
  with negative dot product, and the direction of the push before projection is recorded
  when its length exceeds the epsilon and fewer than three normals are recorded. The call
  returns true exactly when a round found a penetration and the squared length of the
  total push exceeds the squared epsilon, and then \<open>out\<close> holds the total push.
\<close>

theorem iterative_contact_resolution:
  "fst (querySphere c cx cy cz radius out)
     = significant (resolve_contacts (sphereResolver c radius) (cx, cy, cz)) \<and>
   vecOf (snd (snd (querySphere c cx cy cz radius out)))
     = (if fst (querySphere c cx cy cz radius out)
        then snd (resolve_contacts (sphereResolver c radius) (cx, cy, cz)) else vecOf out) \<and>
   fst (queryCapsule c cx cy cz halfHeight radius out)
     = significant (resolve_contacts (capsuleResolver c halfHeight radius) (cx, cy, cz)) \<and>
   vecOf (snd (snd (queryCapsule c cx cy cz halfHeight radius out)))
     = (if fst (queryCapsule c cx cy cz halfHeight radius out)
        then snd (resolve_contacts (capsuleResolver c halfHeight radius) (cx, cy, cz))
        else vecOf out)"
  using querySphere_spec(1,2)[OF sameGrid_refl, of c cx cy cz radius out]
    queryCapsule_spec(1,2)[OF sameGrid_refl, of c cx cy cz halfHeight radius out]
  by simp

theorem iterative_contact_resolution_witness:
  "significant (resolve_contacts (sphereResolver unitGrid (1 / 4)) (1 / 2, 1 / 2, 1 / 2)) \<and>
   snd (resolve_contacts (sphereResolver unitGrid (1 / 4)) (1 / 2, 1 / 2, 1 / 2)) = (3 / 4, 0, 0) \<and>
   \<not> significant (resolve_contacts (capsuleResolver unitGrid (1 / 2) (1 / 4)) (5, 5, 5))"
  using iterative_contact_resolution[of unitGrid "1 / 2" "1 / 2" "1 / 2" "1 / 4" zeroPush "1 / 2"]
    iterative_contact_resolution[of unitGrid 5 5 5 "1 / 4" zeroPush "1 / 2"]
  by (simp add: querySphere_inside querySphere_far queryCapsule_far vecOf_def zeroPush_def)

text \<open>
  Claim C7, amended. A query leaves the node array, the leaf array and every grid
  parameter of the collider as they were: the collider after \<open>querySphere\<close> or
  \<open>queryCapsule\<close> differs from the one before at most in the scratch fields
  \<^verbatim>\<open>_push\<close> and \<^verbatim>\<open>_constraintNormals\<close>, which the queries do overwrite; and what
  these fields held before a call has no influence on the flag a query returns nor on
  \<open>out\<close>. \<open>queryPoint\<close> writes nothing.
\<close>

theorem queries_leave_octree_unchanged:
  "fst (snd (querySphere c cx cy cz radius out))
     = c\<lparr>push_scratch := push_scratch (fst (snd (querySphere c cx cy cz radius out))),
         constraintNormals := constraintNormals (fst (snd (querySphere c cx cy cz radius out)))\<rparr> \<and>
   fst (snd (queryCapsule c cx cy cz halfHeight radius out))
     = c\<lparr>push_scratch := push_scratch (fst (snd (queryCapsule c cx cy cz halfHeight radius out))),
         constraintNormals :=
           constraintNormals (fst (snd (queryCapsule c cx cy cz halfHeight radius out)))\<rparr> \<and>
   fst (querySphere (c\<lparr>push_scratch := p, constraintNormals := n\<rparr>) cx cy cz radius out)
     = fst (querySphere c cx cy cz radius out) \<and>
   snd (snd (querySphere (c\<lparr>push_scratch := p, constraintNormals := n\<rparr>) cx cy cz radius out))
     = snd (snd (querySphere c cx cy cz radius out)) \<and>
   fst (queryCapsule (c\<lparr>push_scratch := p, constraintNormals := n\<rparr>) cx cy cz halfHeight radius out)
     = fst (queryCapsule c cx cy cz halfHeight radius out) \<and>
   snd (snd (queryCapsule (c\<lparr>push_scratch := p, constraintNormals := n\<rparr>) cx cy cz halfHeight
               radius out))
     = snd (snd (queryCapsule c cx cy cz halfHeight radius out)) \<and>
   queryPoint (c\<lparr>push_scratch := p, constraintNormals := n\<rparr>) x y z = queryPoint c x y z"
proof -
  have sg: "sameGrid c (c\<lparr>push_scratch := p, constraintNormals := n\<rparr>)"
    by (simp add: sameGrid_def)
  have out_eq: "a = b" if "vecOf a = vecOf b" for a b :: PushOut
    using that by (cases a, cases b) (simp add: vecOf_def)
  have s1: "fst (querySphere (c\<lparr>push_scratch := p, constraintNormals := n\<rparr>) cx cy cz radius out)
     = fst (querySphere c cx cy cz radius out)"
    using querySphere_spec(1)[OF sg, of cx cy cz radius out]
      querySphere_spec(1)[OF sameGrid_refl[of c], of cx cy cz radius out] by simp
  have s2: "snd (snd (querySphere (c\<lparr>push_scratch := p, constraintNormals := n\<rparr>) cx cy cz radius out))
     = snd (snd (querySphere c cx cy cz radius out))"
    by (rule out_eq)
      (simp only: querySphere_spec(2)[OF sg] querySphere_spec(2)[OF sameGrid_refl[of c]])
  have c1: "fst (queryCapsule (c\<lparr>push_scratch := p, constraintNormals := n\<rparr>) cx cy cz halfHeight radius out)
     = fst (queryCapsule c cx cy cz halfHeight radius out)"
    using queryCapsule_spec(1)[OF sg, of cx cy cz halfHeight radius out]
      queryCapsule_spec(1)[OF sameGrid_refl[of c], of cx cy cz halfHeight radius out] by simp
  have c2: "snd (snd (queryCapsule (c\<lparr>push_scratch := p, constraintNormals := n\<rparr>) cx cy cz halfHeight radius out))
     = snd (snd (queryCapsule c cx cy cz halfHeight radius out))"
    by (rule out_eq)
      (simp only: queryCapsule_spec(2)[OF sg] queryCapsule_spec(2)[OF sameGrid_refl[of c]])
  have qp: "queryPoint (c\<lparr>push_scratch := p, constraintNormals := n\<rparr>) x y z = queryPoint c x y z"
    by (simp only: queryPoint_def isVoxelSolid_scratch scratch_fields)
  show ?thesis
    using querySphere_spec(3)[OF sameGrid_refl, of c cx cy cz radius out]
      queryCapsule_spec(3)[OF sameGrid_refl, of c cx cy cz halfHeight radius out]
      s1 s2 c1 c2 qp
    unfolding sameGrid_def by blast
qed

theorem queries_leave_octree_unchanged_witness:
  "fst (querySphere
          (unitGrid\<lparr>push_scratch := \<lparr>pushX = 9, pushY = 8, pushZ = 7\<rparr>,
             constraintNormals := (\<lparr>pushX = 1, pushY = 2, pushZ = 3\<rparr>, zeroPush, zeroPush)\<rparr>)
          (1 / 2) (1 / 2) (1 / 2) (1 / 4) zeroPush) \<and>
   snd (snd (querySphere
          (unitGrid\<lparr>push_scratch := \<lparr>pushX = 9, pushY = 8, pushZ = 7\<rparr>,
             constraintNormals := (\<lparr>pushX = 1, pushY = 2, pushZ = 3\<rparr>, zeroPush, zeroPush)\<rparr>)
          (1 / 2) (1 / 2) (1 / 2) (1 / 4) zeroPush))
     = \<lparr>pushX = 3 / 4, pushY = 0, pushZ = 0\<rparr>"
proof -
  note t = queries_leave_octree_unchanged[where c = unitGrid and cx = "1 / 2" and cy = "1 / 2"
      and cz = "1 / 2" and radius = "1 / 4" and out = zeroPush and halfHeight = "1 / 4"
      and p = "\<lparr>pushX = 9, pushY = 8, pushZ = 7\<rparr>"
      and n = "(\<lparr>pushX = 1, pushY = 2, pushZ = 3\<rparr>, zeroPush, zeroPush)"
      and x = 0 and y = 0 and z = 0]
  have a: "fst (querySphere
          (unitGrid\<lparr>push_scratch := \<lparr>pushX = 9, pushY = 8, pushZ = 7\<rparr>,
             constraintNormals := (\<lparr>pushX = 1, pushY = 2, pushZ = 3\<rparr>, zeroPush, zeroPush)\<rparr>)
          (1 / 2) (1 / 2) (1 / 2) (1 / 4) zeroPush)
        = fst (querySphere unitGrid (1 / 2) (1 / 2) (1 / 2) (1 / 4) zeroPush)"
    using t by blast
  have b: "snd (snd (querySphere
          (unitGrid\<lparr>push_scratch := \<lparr>pushX = 9, pushY = 8, pushZ = 7\<rparr>,
             constraintNormals := (\<lparr>pushX = 1, pushY = 2, pushZ = 3\<rparr>, zeroPush, zeroPush)\<rparr>)
          (1 / 2) (1 / 2) (1 / 2) (1 / 4) zeroPush))
        = snd (snd (querySphere unitGrid (1 / 2) (1 / 2) (1 / 2) (1 / 4) zeroPush))"
    using t by blast
  show ?thesis unfolding a b by (simp add: querySphere_inside zeroPush_def)
qed

text \<open>
  The claim as stated, that the caller's \<open>out\<close> is the only memory a query writes, fails:
  a sphere query that finds a penetration leaves its push in \<^verbatim>\<open>_push\<close>.
\<close>

theorem scratch_is_written_counterexample:
  "push_scratch (fst (snd (querySphere unitGrid (1 / 2) (1 / 2) (1 / 2) (1 / 4) zeroPush)))
     \<noteq> push_scratch unitGrid"
  by (simp add: querySphere_inside unitGridPushed_def unitGrid_fields zeroPush_def)

section \<open>The degenerate capsule\<close>

lemma segY_degenerate:
  "(if cy + 0 < lo then cy + 0
    else if hi < cy - 0 then cy - 0
    else max (cy - 0) (min (cy + 0) m)) = (cy::real)"
  by simp

lemma capsule_degenerate_push:
  "capsuleVoxelPush c cx cy cz 0 radius ix iy iz = sphereVoxelPush c cx cy cz radius ix iy iz"
  unfolding capsuleVoxelPush_def sphereVoxelPush_def
  by (simp only: Let_def segY_degenerate)

lemma capsule_degenerate_best:
  "capsuleBest c cx cy cz 0 radius = sphereBest c cx cy cz radius"
  unfolding capsuleBest_def sphereBest_def capsule_degenerate_push by simp

lemma capsule_degenerate_resolve:
  "resolveDeepestPenetrationCapsule c cx cy cz 0 radius = resolveDeepestPenetration c cx cy cz radius"
  unfolding resolveCapsule_unfold resolve_unfold capsule_degenerate_best ..

lemma capsule_degenerate_loop:
  "k = maxIterations - iter \<Longrightarrow>
     queryCapsuleLoop 0 radius iter c st = querySphereLoop radius iter c st"
proof (induction k arbitrary: iter c st)
  case 0
  then show ?case
    by (subst queryCapsuleLoop.simps, subst querySphereLoop.simps) simp
next
  case (Suc k)
  then have k: "k = maxIterations - (iter + 1)" by simp
  have IH: "queryCapsuleLoop 0 radius (Suc iter) c' st' = querySphereLoop radius (Suc iter) c' st'"
    for c' st'
    using Suc.IH[OF k, of c' st'] by simp
  show ?case
    by (subst queryCapsuleLoop.simps, subst querySphereLoop.simps)
       (simp add: capsule_degenerate_resolve IH Let_def split: prod.splits)
qed

text \<open>
  Claim C10. A capsule query with \<open>halfHeight = 0\<close> returns the same flag, writes the
  same \<open>out\<close> and leaves the collider in the same state as the sphere query with the same
  centre and radius: the segment point is always \<open>cy\<close>, so the two resolvers coincide,
  and the two loops are the same otherwise.
\<close>

theorem degenerate_capsule_is_sphere:
  "queryCapsule c cx cy cz 0 radius out = querySphere c cx cy cz radius out"
  by (simp add: queryCapsule_def querySphere_def capsule_degenerate_loop)

theorem degenerate_capsule_is_sphere_witness:
  "queryCapsule unitGrid (1 / 2) (1 / 2) (1 / 2) 0 (1 / 4) zeroPush
     = (True, unitGridPushed, \<lparr>pushX = 3 / 4, pushY = 0, pushZ = 0\<rparr>) \<and>
   queryCapsule unitGrid 5 5 5 0 (1 / 4) zeroPush = (False, unitGrid, zeroPush)"
  using degenerate_capsule_is_sphere[of unitGrid "1 / 2" "1 / 2" "1 / 2" "1 / 4" zeroPush]
    degenerate_capsule_is_sphere[of unitGrid 5 5 5 "1 / 4" zeroPush]
  by (simp add: querySphere_inside querySphere_far zeroPush_def)

section \<open>Pushing out of a voxel that contains the defining point\<close>

lemma least_escape_choice:
  "least_escape_push ex ey ez
     (if \<bar>ex\<bar> \<le> \<bar>ey\<bar> \<and> \<bar>ex\<bar> \<le> \<bar>ez\<bar> then Some (ex, 0, 0, \<bar>ex\<bar>)
      else if \<bar>ey\<bar> \<le> \<bar>ez\<bar> then Some (0, ey, 0, \<bar>ey\<bar>)
      else Some (0, 0, ez, \<bar>ez\<bar>))"
  unfolding least_escape_push_def by (simp add: min_def) 

lemma sphere_inside_push:
  assumes "isVoxelSolid c ix iy iz"
    and "pointBoxDistSq c (cx, cy, cz) (ix, iy, iz) \<le> 1 / 10 ^ 12"
    and "pointBoxDistSq c (cx, cy, cz) (ix, iy, iz) < radius * radius"
  shows "least_escape_push
           (escape (voxelMin (gridMinX c) (voxelResolution c) ix)
                   (voxelMax (gridMinX c) (voxelResolution c) ix) radius cx)
           (escape (voxelMin (gridMinY c) (voxelResolution c) iy)
                   (voxelMax (gridMinY c) (voxelResolution c) iy) radius cy)
           (escape (voxelMin (gridMinZ c) (voxelResolution c) iz)
                   (voxelMax (gridMinZ c) (voxelResolution c) iz) radius cz)
           (sphereVoxelPush c cx cy cz radius ix iy iz)"
proof -
  have a: "\<not> radius * radius \<le> pointBoxDistSq c (cx, cy, cz) (ix, iy, iz)"
    and b: "\<not> 1 / 10 ^ 12 < pointBoxDistSq c (cx, cy, cz) (ix, iy, iz)"
    using assms by simp_all
  have "sphereVoxelPush c cx cy cz radius ix iy iz =
     (if \<bar>escape (voxelMin (gridMinX c) (voxelResolution c) ix)
                   (voxelMax (gridMinX c) (voxelResolution c) ix) radius cx\<bar>
          \<le> \<bar>escape (voxelMin (gridMinY c) (voxelResolution c) iy)
                   (voxelMax (gridMinY c) (voxelResolution c) iy) radius cy\<bar> \<and>
         \<bar>escape (voxelMin (gridMinX c) (voxelResolution c) ix)
                   (voxelMax (gridMinX c) (voxelResolution c) ix) radius cx\<bar>
          \<le> \<bar>escape (voxelMin (gridMinZ c) (voxelResolution c) iz)
                   (voxelMax (gridMinZ c) (voxelResolution c) iz) radius cz\<bar>
      then Some (escape (voxelMin (gridMinX c) (voxelResolution c) ix)
                   (voxelMax (gridMinX c) (voxelResolution c) ix) radius cx, 0, 0,
                 \<bar>escape (voxelMin (gridMinX c) (voxelResolution c) ix)
                   (voxelMax (gridMinX c) (voxelResolution c) ix) radius cx\<bar>)
      else if \<bar>escape (voxelMin (gridMinY c) (voxelResolution c) iy)
                   (voxelMax (gridMinY c) (voxelResolution c) iy) radius cy\<bar>
              \<le> \<bar>escape (voxelMin (gridMinZ c) (voxelResolution c) iz)
                   (voxelMax (gridMinZ c) (voxelResolution c) iz) radius cz\<bar>
      then Some (0, escape (voxelMin (gridMinY c) (voxelResolution c) iy)
                   (voxelMax (gridMinY c) (voxelResolution c) iy) radius cy, 0,
                 \<bar>escape (voxelMin (gridMinY c) (voxelResolution c) iy)
                   (voxelMax (gridMinY c) (voxelResolution c) iy) radius cy\<bar>)
      else Some (0, 0, escape (voxelMin (gridMinZ c) (voxelResolution c) iz)
                   (voxelMax (gridMinZ c) (voxelResolution c) iz) radius cz,
                 \<bar>escape (voxelMin (gridMinZ c) (voxelResolution c) iz)
                   (voxelMax (gridMinZ c) (voxelResolution c) iz) radius cz\<bar>))"
    using assms(1) a b
    unfolding sphereVoxelPush_def pointBoxDistSq_def escape_def voxelMin_def voxelMax_def
      clampTo_def Let_def prod.case
    by (simp only: simp_thms if_True if_False)
  then show ?thesis by (simp only: least_escape_choice)
qed

lemma capsule_inside_push:
  assumes "isVoxelSolid c ix iy iz"
    and "pointBoxDistSq c (cx, capsuleSegY c cy halfHeight iy, cz) (ix, iy, iz) \<le> 1 / 10 ^ 12"
    and "pointBoxDistSq c (cx, capsuleSegY c cy halfHeight iy, cz) (ix, iy, iz) < radius * radius"
  shows "least_escape_push
           (escape (voxelMin (gridMinX c) (voxelResolution c) ix)
                   (voxelMax (gridMinX c) (voxelResolution c) ix) radius cx)
           (escape (voxelMin (gridMinY c) (voxelResolution c) iy)
                   (voxelMax (gridMinY c) (voxelResolution c) iy) radius (capsuleSegY c cy halfHeight iy))
           (escape (voxelMin (gridMinZ c) (voxelResolution c) iz)
                   (voxelMax (gridMinZ c) (voxelResolution c) iz) radius cz)
           (capsuleVoxelPush c cx cy cz halfHeight radius ix iy iz)"
proof -
  have a: "\<not> radius * radius \<le> pointBoxDistSq c (cx, capsuleSegY c cy halfHeight iy, cz) (ix, iy, iz)"
    and b: "\<not> 1 / 10 ^ 12 < pointBoxDistSq c (cx, capsuleSegY c cy halfHeight iy, cz) (ix, iy, iz)"
    using assms by simp_all
  have "capsuleVoxelPush c cx cy cz halfHeight radius ix iy iz =
     (if \<bar>escape (voxelMin (gridMinX c) (voxelResolution c) ix)
                   (voxelMax (gridMinX c) (voxelResolution c) ix) radius cx\<bar>
          \<le> \<bar>escape (voxelMin (gridMinY c) (voxelResolution c) iy)
                   (voxelMax (gridMinY c) (voxelResolution c) iy) radius (capsuleSegY c cy halfHeight iy)\<bar> \<and>
         \<bar>escape (voxelMin (gridMinX c) (voxelResolution c) ix)
                   (voxelMax (gridMinX c) (voxelResolution c) ix) radius cx\<bar>
          \<le> \<bar>escape (voxelMin (gridMinZ c) (voxelResolution c) iz)
                   (voxelMax (gridMinZ c) (voxelResolution c) iz) radius cz\<bar>
      then Some (escape (voxelMin (gridMinX c) (voxelResolution c) ix)
                   (voxelMax (gridMinX c) (voxelResolution c) ix) radius cx, 0, 0,
                 \<bar>escape (voxelMin (gridMinX c) (voxelResolution c) ix)
                   (voxelMax (gridMinX c) (voxelResolution c) ix) radius cx\<bar>)
      else if \<bar>escape (voxelMin (gridMinY c) (voxelResolution c) iy)
                   (voxelMax (gridMinY c) (voxelResolution c) iy) radius (capsuleSegY c cy halfHeight iy)\<bar>
              \<le> \<bar>escape (voxelMin (gridMinZ c) (voxelResolution c) iz)
                   (voxelMax (gridMinZ c) (voxelResolution c) iz) radius cz\<bar>
      then Some (0, escape (voxelMin (gridMinY c) (voxelResolution c) iy)
                   (voxelMax (gridMinY c) (voxelResolution c) iy) radius (capsuleSegY c cy halfHeight iy), 0,
                 \<bar>escape (voxelMin (gridMinY c) (voxelResolution c) iy)
                   (voxelMax (gridMinY c) (voxelResolution c) iy) radius (capsuleSegY c cy halfHeight iy)\<bar>)
      else Some (0, 0, escape (voxelMin (gridMinZ c) (voxelResolution c) iz)
                   (voxelMax (gridMinZ c) (voxelResolution c) iz) radius cz,
                 \<bar>escape (voxelMin (gridMinZ c) (voxelResolution c) iz)
                   (voxelMax (gridMinZ c) (voxelResolution c) iz) radius cz\<bar>))"
    using assms(1) a b
    unfolding capsuleVoxelPush_def capsuleSegY_def pointBoxDistSq_def escape_def voxelMin_def voxelMax_def
      clampTo_def Let_def prod.case
    by (simp only: simp_thms if_True if_False)
  then show ?thesis by (simp only: least_escape_choice)
qed


text \<open>
  Claim C8, amended. For a solid voxel whose box is within squared distance \<open>1e-12\<close> of
  the shape's defining point (the sphere centre, or the capsule's segment point) and
  which the shape overlaps (that squared distance is below the squared radius, as it
  always is for a radius above \<open>1e-6\<close>), the candidate push goes along a single axis of least
  absolute escape, the escape on an axis being the signed distance to the nearer face
  plus the radius in that outward direction, and the recorded penetration is that least
  absolute escape.
\<close>

theorem inside_push_along_least_escape:
  "(isVoxelSolid c ix iy iz \<and>
    pointBoxDistSq c (cx, cy, cz) (ix, iy, iz) \<le> 1 / 10 ^ 12 \<and>
    pointBoxDistSq c (cx, cy, cz) (ix, iy, iz) < radius * radius
    \<longrightarrow> least_escape_push
          (escape (voxelMin (gridMinX c) (voxelResolution c) ix)
                  (voxelMax (gridMinX c) (voxelResolution c) ix) radius cx)
          (escape (voxelMin (gridMinY c) (voxelResolution c) iy)
                  (voxelMax (gridMinY c) (voxelResolution c) iy) radius cy)
          (escape (voxelMin (gridMinZ c) (voxelResolution c) iz)
                  (voxelMax (gridMinZ c) (voxelResolution c) iz) radius cz)
          (sphereVoxelPush c cx cy cz radius ix iy iz)) \<and>
   (isVoxelSolid c ix iy iz \<and>
    pointBoxDistSq c (cx, capsuleSegY c cy halfHeight iy, cz) (ix, iy, iz) \<le> 1 / 10 ^ 12 \<and>
    pointBoxDistSq c (cx, capsuleSegY c cy halfHeight iy, cz) (ix, iy, iz) < radius * radius
    \<longrightarrow> least_escape_push
          (escape (voxelMin (gridMinX c) (voxelResolution c) ix)
                  (voxelMax (gridMinX c) (voxelResolution c) ix) radius cx)
          (escape (voxelMin (gridMinY c) (voxelResolution c) iy)
                  (voxelMax (gridMinY c) (voxelResolution c) iy) radius
                  (capsuleSegY c cy halfHeight iy))
          (escape (voxelMin (gridMinZ c) (voxelResolution c) iz)
                  (voxelMax (gridMinZ c) (voxelResolution c) iz) radius cz)
          (capsuleVoxelPush c cx cy cz halfHeight radius ix iy iz))"
  using sphere_inside_push[of c ix iy iz cx cy cz radius]
    capsule_inside_push[of c ix iy iz cx cy halfHeight cz radius]
  by blast

lemma unitGrid_point:
  "pointBoxDistSq unitGrid (1 / 2, 1 / 2, 1 / 2) (0, 0, 0) = 0"
  "capsuleSegY unitGrid (1 / 2) (1 / 4) 0 = 1 / 2"
  "voxelMin (gridMinX unitGrid) (voxelResolution unitGrid) 0 = 0"
  "voxelMax (gridMinX unitGrid) (voxelResolution unitGrid) 0 = 1"
  "voxelMin (gridMinY unitGrid) (voxelResolution unitGrid) 0 = 0"
  "voxelMax (gridMinY unitGrid) (voxelResolution unitGrid) 0 = 1"
  "voxelMin (gridMinZ unitGrid) (voxelResolution unitGrid) 0 = 0"
  "voxelMax (gridMinZ unitGrid) (voxelResolution unitGrid) 0 = 1"
  by (simp_all add: pointBoxDistSq_def capsuleSegY_def voxelMin_def voxelMax_def clampTo_def
      unitGrid_fields Let_def)

theorem inside_push_along_least_escape_witness:
  "isVoxelSolid unitGrid 0 0 0 \<and>
   pointBoxDistSq unitGrid (1 / 2, 1 / 2, 1 / 2) (0, 0, 0) \<le> 1 / 10 ^ 12 \<and>
   pointBoxDistSq unitGrid (1 / 2, 1 / 2, 1 / 2) (0, 0, 0) < 1 / 4 * (1 / 4) \<and>
   pointBoxDistSq unitGrid (1 / 2, capsuleSegY unitGrid (1 / 2) (1 / 4) 0, 1 / 2) (0, 0, 0)
     \<le> 1 / 10 ^ 12 \<and>
   least_escape_push (3 / 4) (3 / 4) (3 / 4)
     (sphereVoxelPush unitGrid (1 / 2) (1 / 2) (1 / 2) (1 / 4) 0 0 0) \<and>
   least_escape_push (3 / 4) (3 / 4) (3 / 4)
     (capsuleVoxelPush unitGrid (1 / 2) (1 / 2) (1 / 2) (1 / 4) (1 / 4) 0 0 0)"
  using inside_push_along_least_escape[of unitGrid 0 0 0 "1 / 2" "1 / 2" "1 / 2" "1 / 4" "1 / 4"]
  by (simp add: unitGrid_solid unitGrid_point escape_def)

text \<open>
  Without the overlap condition the claim fails: a sphere of radius 0 centred in a solid
  voxel is skipped by the test \<^verbatim>\<open>distSq >= radiusSq\<close> and gets no push at all.
\<close>

theorem zero_radius_inside_counterexample:
  "isVoxelSolid unitGrid 0 0 0 \<and>
   pointBoxDistSq unitGrid (1 / 2, 1 / 2, 1 / 2) (0, 0, 0) \<le> 1 / 10 ^ 12 \<and>
   sphereVoxelPush unitGrid (1 / 2) (1 / 2) (1 / 2) 0 0 0 0 = None \<and>
   \<not> least_escape_push
       (escape (voxelMin (gridMinX unitGrid) (voxelResolution unitGrid) 0)
               (voxelMax (gridMinX unitGrid) (voxelResolution unitGrid) 0) 0 (1 / 2))
       (escape (voxelMin (gridMinY unitGrid) (voxelResolution unitGrid) 0)
               (voxelMax (gridMinY unitGrid) (voxelResolution unitGrid) 0) 0 (1 / 2))
       (escape (voxelMin (gridMinZ unitGrid) (voxelResolution unitGrid) 0)
               (voxelMax (gridMinZ unitGrid) (voxelResolution unitGrid) 0) 0 (1 / 2))
       (sphereVoxelPush unitGrid (1 / 2) (1 / 2) (1 / 2) 0 0 0 0)"
proof -
  have n: "sphereVoxelPush unitGrid (1 / 2) (1 / 2) (1 / 2) 0 0 0 0 = None"
    by (simp add: sphereVoxelPush_def unitGrid_solid unitGrid_fields Let_def)
  show ?thesis
    by (simp add: n unitGrid_solid unitGrid_point least_escape_push_def)
qed

section \<open>Decoding a short buffer\<close>

lemma take_min_len: "take (min n (length ys)) ys = take n ys"
  by (cases "n \<le> length ys") (simp_all add: min_def)

lemma typedSlice_take_drop:
  assumes "0 \<le> a" "0 \<le> b"
  shows "typedSlice xs a (a + b) = take (nat b) (drop (nat a) xs)"
proof (cases "a < int (length xs)")
  case True
  have m: "nat (min (a + b) (int (length xs)) - a) = min (nat b) (length (drop (nat a) xs))"
    using assms True by (simp add: min_def) linarith
  have k: "min a (int (length xs)) = a" using True by simp
  have "typedSlice xs a (a + b) = take (min (nat b) (length (drop (nat a) xs))) (drop (nat a) xs)"
    using assms unfolding typedSlice_def Let_def k m[symmetric] by simp
  then show ?thesis by (simp only: take_min_len)
next
  case False
  then show ?thesis
    using assms by (simp add: typedSlice_def Let_def min_def)
qed

lemma typedSlice_front:
  assumes "0 \<le> a"
  shows "typedSlice xs 0 a = take (nat a) xs"
  using typedSlice_take_drop[of 0 a xs] assms by simp

lemma length_uint32View: "length (uint32View bs) = length bs div 4"
  by (induction bs rule: uint32View.induct) simp_all

text \<open>
  Claim C5, amended. Decoding takes the buffer's first \<open>nodeCount\<close> words as the nodes
  array and the next \<open>leafDataCount\<close> words as the leaf data array, or as many of them as
  the buffer holds: a buffer with fewer than \<open>nodeCount + leafDataCount\<close> words is not
  an error, and \<open>load\<close> constructs a grid from the shorter arrays. This is for both
  fetches succeeding, metadata with the fields of \<^verbatim>\<open>VoxelMetadata\<close> and counts that
  are not negative, and a binary whose byte length is a multiple of 4.
\<close>

theorem load_takes_what_the_buffer_holds:
  assumes "0 \<le> meta_nodeCount metadata" "0 \<le> meta_leafDataCount metadata"
    and "length buffer mod 4 = 0"
  shows "load (Response True metaStatus (Metadata metadata)) (Response True binStatus buffer)
           = Inr (newVoxelCollider metadata
                    (take (nat (meta_nodeCount metadata)) (uint32View buffer))
                    (take (nat (meta_leafDataCount metadata))
                       (drop (nat (meta_nodeCount metadata)) (uint32View buffer)))) \<and>
         nodes (newVoxelCollider metadata
                    (take (nat (meta_nodeCount metadata)) (uint32View buffer))
                    (take (nat (meta_leafDataCount metadata))
                       (drop (nat (meta_nodeCount metadata)) (uint32View buffer))))
           = take (nat (meta_nodeCount metadata)) (uint32View buffer) \<and>
         leafData (newVoxelCollider metadata
                    (take (nat (meta_nodeCount metadata)) (uint32View buffer))
                    (take (nat (meta_leafDataCount metadata))
                       (drop (nat (meta_nodeCount metadata)) (uint32View buffer))))
           = take (nat (meta_leafDataCount metadata))
               (drop (nat (meta_nodeCount metadata)) (uint32View buffer))"
proof -
  have l: "load (Response True metaStatus (Metadata metadata)) (Response True binStatus buffer)
           = Inr (newVoxelCollider metadata
                    (take (nat (meta_nodeCount metadata)) (uint32View buffer))
                    (take (nat (meta_leafDataCount metadata))
                       (drop (nat (meta_nodeCount metadata)) (uint32View buffer))))"
    using assms by (simp add: load_def Let_def typedSlice_front typedSlice_take_drop)
  have n: "nodes (newVoxelCollider metadata ns ld) = ns" for ns ld
    by (simp add: newVoxelCollider_def Let_def split: prod.splits)
  have d: "leafData (newVoxelCollider metadata ns ld) = ld" for ns ld
    by (simp add: newVoxelCollider_def Let_def split: prod.splits)
  show ?thesis using l n d by (simp only: simp_thms)
qed

theorem load_takes_what_the_buffer_holds_witness:
  "(0::int) \<le> meta_nodeCount shortMetadata \<and> 0 \<le> meta_leafDataCount shortMetadata \<and>
   length [1, 0, 0, 0 :: 8 word] mod 4 = 0 \<and>
   load (Response True ''OK'' (Metadata shortMetadata)) (Response True ''OK'' [1, 0, 0, 0])
     = Inr (newVoxelCollider shortMetadata [1] []) \<and>
   nodes (newVoxelCollider shortMetadata [1] []) = [1] \<and>
   leafData (newVoxelCollider shortMetadata [1] []) = []"
proof -
  have h: "0 \<le> meta_nodeCount shortMetadata" "0 \<le> meta_leafDataCount shortMetadata"
    "length [1, 0, 0, 0 :: 8 word] mod 4 = 0"
    by (simp_all add: shortMetadata_def)
  have n: "nat (meta_nodeCount shortMetadata) = 2" "nat (meta_leafDataCount shortMetadata) = 2"
    by (simp_all add: shortMetadata_def)
  show ?thesis
    using load_takes_what_the_buffer_holds[OF h, of "''OK''" "''OK''"] h
    by (simp add: n)
qed

text \<open>
  The claim as stated fails: one word against announced counts of two and two gives a
  grid with one node and no leaf data, not an error.
\<close>

theorem load_short_buffer_counterexample:
  "length (uint32View [1, 0, 0, 0])
     < nat (meta_nodeCount shortMetadata + meta_leafDataCount shortMetadata) \<and>
   load (Response True ''OK'' (Metadata shortMetadata)) (Response True ''OK'' [1, 0, 0, 0])
     = Inr (newVoxelCollider shortMetadata [1] [])"
  by (simp add: load_def typedSlice_def shortMetadata_def Let_def)

section \<open>The shader's block query against the CPU descent\<close>

lemma checkLeaf_low:
  "checkLeafByIndex ld (node AND 0x00FFFFFF) ix iy iz = checkLeafByIndex ld node ix iy iz"
  by (simp add: checkLeafByIndex_def and.assoc)

lemma traverse_class:
  "traverse ns ld b (ix, iy, iz) level idx
     = classVoxelSolid ld (cpuBlockClass ns b level idx) ix iy iz"
proof (induction ns b level idx rule: cpuBlockClass.induct)
  case (1 ns b level nodeIndex)
  obtain bx "by" bz where b: "b = (bx, by, bz)" by (cases b)
  show ?case
  proof (cases "level \<ge> 0 \<and> u32_at ns nodeIndex \<noteq> SOLID_LEAF_MARKER \<and>
                 drop_bit 24 (u32_at ns nodeIndex) AND 0xFF \<noteq> 0 \<and>
                 (drop_bit 24 (u32_at ns nodeIndex) AND 0xFF) AND push_bit (stepOctant level b) 1 \<noteq> 0")
    case True
    then have d: "traverse ns ld b (ix, iy, iz) level nodeIndex
                    = traverse ns ld b (ix, iy, iz) (level - 1)
                        (stepChild (u32_at ns nodeIndex) (stepOctant level b))"
      by (simp add: traverse_descend)
    have c: "cpuBlockClass ns b level nodeIndex
               = cpuBlockClass ns b (level - 1)
                   (stepChild (u32_at ns nodeIndex) (stepOctant level b))"
      using True by (subst cpuBlockClass.simps) simp
    show ?thesis unfolding d c using True "1.IH" by simp
  next
    case False
    then show ?thesis
      unfolding b
      by (subst traverse.simps, subst cpuBlockClass.simps)
         (auto simp: classVoxelSolid_def checkLeaf_low Let_def stepOctant_def)
  qed
qed

lemma storageRead_Some:
  "storageRead buf i = Some w \<Longrightarrow> w = u32_at buf (unat i)"
  by (auto simp: storageRead_def u32_at_def split: if_splits)

lemma countOneBits_bytes:
  "list_all (\<lambda>n. unat (countOneBits (of_nat n)) = bits_below (of_nat n) 8) [0..<256]"
  by code_simp

lemma countOneBits_byte:
  assumes "w < 256"
  shows "countOneBits w = popcount w"
proof -
  have "unat w < 256" using assms by (simp add: word_less_nat_alt)
  then have "unat w \<in> set [0..<256]" by simp
  with countOneBits_bytes
  have "unat (countOneBits (of_nat (unat w))) = bits_below (of_nat (unat w)) 8"
    unfolding list_all_iff by blast
  then have "unat (countOneBits w) = unat (popcount w)"
    by (simp add: popcount_byte[OF assms])
  then show ?thesis by (simp only: word_unat_eq_iff)
qed

lemma prefix_byte: "(drop_bit 24 (w::u32) AND 0xFF) AND (push_bit i 1 - 1) < 256"
proof -
  have "(drop_bit 24 w AND 0xFF) AND (push_bit i 1 - 1) \<le> drop_bit 24 w AND 0xFF"
    by (rule word_and_le2)
  also have "\<dots> < 256" unfolding childMask_and by (rule childMask_lt)
  finally show ?thesis .
qed

lemma bits_below_le: "bits_below m k \<le> k"
  unfolding bits_below_def using length_filter_le[of "bit m" "[0..<k]"] by simp

lemma stepChild_bound: "stepChild node i < 2 ^ 24 + 9"
proof -
  have a: "unat (node AND 0x00FFFFFF) < 2 ^ 24"
    unfolding low24 by (simp only: unsigned_take_bit_eq) (simp add: take_bit_eq_mod)
  have "unat (popcount ((drop_bit 24 node AND 0xFF) AND (push_bit i 1 - 1)))
          = bits_below ((drop_bit 24 node AND 0xFF) AND (push_bit i 1 - 1)) 8"
    by (rule popcount_byte[OF prefix_byte])
  then have b: "unat (popcount ((drop_bit 24 node AND 0xFF) AND (push_bit i 1 - 1))) \<le> 8"
    using bits_below_le[of _ 8] by simp
  show ?thesis using a b by (simp add: stepChild_def Let_def)
qed

lemma unat_stepChild: "unat (word_of_nat (stepChild node i) :: u32) = stepChild node i"
proof -
  have "stepChild node i < 2 ^ 32" using stepChild_bound[of node i] by simp
  then show ?thesis by (simp add: unat_of_nat)
qed

lemma gpu_child_index:
  "(node AND 0x00FFFFFF)
     + countOneBits ((drop_bit 24 node AND 0xFF) AND (push_bit i 1 - 1))
   = word_of_nat (stepChild node i)"
  unfolding stepChild_def Let_def countOneBits_byte[OF prefix_byte] by simp

lemma gpu_octant:
  "unat (push_bit 2 (drop_bit (unat level mod 32) (word_of_int bZ :: u32) AND 1)
         OR push_bit 1 (drop_bit (unat level mod 32) (word_of_int bY :: u32) AND 1)
         OR (drop_bit (unat level mod 32) (word_of_int bX :: u32) AND 1))
     = stepOctant (int (unat (level :: u32))) (bX, bY, bZ)"
proof -
  have h: "nat (int (unat level) mod 32) = unat level mod 32"
    by (simp add: nat_mod_distrib)
  show ?thesis by (simp only: stepOctant_def Let_def prod.case h)
qed

lemma queryBlockLoop_step:
  assumes "storageRead ns idx = Some node"
  shows "queryBlockLoop ns (word_of_int bX, word_of_int bY, word_of_int bZ) level idx =
     (if node = SOLID_LEAF_MARKER then Some (1, 0)
      else if drop_bit 24 node AND 0xFF = 0 then Some (2 + (node AND 0x00FFFFFF), 0)
      else if (drop_bit 24 node AND 0xFF)
                AND push_bit (stepOctant (int (unat level)) (bX, bY, bZ)) 1 = 0
           then Some (0, level)
      else if level = 0
           then queryBlockLeaf ns
                  (word_of_nat (stepChild node (stepOctant (int (unat level)) (bX, bY, bZ))))
      else queryBlockLoop ns (word_of_int bX, word_of_int bY, word_of_int bZ) (level - 1)
             (word_of_nat (stepChild node (stepOctant (int (unat level)) (bX, bY, bZ)))))"
  apply (subst queryBlockLoop.simps)
  apply (simp only: assms option.case Let_def gpu_octant gpu_child_index)
  done


lemma low24_bound: "unat ((w::u32) AND 0x00FFFFFF) < 2 ^ 24"
  unfolding low24 by (simp only: unsigned_take_bit_eq) (simp add: take_bit_eq_mod)

lemma cpuBlockClass_leaf_bound:
  "cpuBlockClass ns b level idx = BlockLeaf k \<Longrightarrow> k < 2 ^ 24"
proof (induction ns b level idx rule: cpuBlockClass.induct)
  case (1 ns b level nodeIndex)
  show ?case
  proof (cases "level \<ge> 0 \<and> u32_at ns nodeIndex \<noteq> SOLID_LEAF_MARKER \<and>
                 drop_bit 24 (u32_at ns nodeIndex) AND 0xFF \<noteq> 0 \<and>
                 (drop_bit 24 (u32_at ns nodeIndex) AND 0xFF) AND push_bit (stepOctant level b) 1 \<noteq> 0")
    case True
    have c: "cpuBlockClass ns b level nodeIndex
               = cpuBlockClass ns b (level - 1)
                   (stepChild (u32_at ns nodeIndex) (stepOctant level b))"
      using True by (subst cpuBlockClass.simps) simp
    show ?thesis using True "1.IH" "1.prems" unfolding c by simp
  next
    case False
    from "1.prems" show ?thesis
      apply (subst (asm) cpuBlockClass.simps)
      using False low24_bound[of "u32_at ns nodeIndex"]
      apply (auto simp: Let_def split: if_splits)
      done
  qed
qed

lemma root_leaf_class:
  assumes "u32_at ns idx = SOLID_LEAF_MARKER \<or> drop_bit 24 (u32_at ns idx) AND 0xFF = 0"
  shows "cpuBlockClass ns b level idx = cpuBlockClass ns b (- 1) idx"
  using assms
  by (subst cpuBlockClass.simps, subst (2) cpuBlockClass.simps) (auto simp: Let_def)

lemma gpu_leaf_class:
  assumes "queryBlockLeaf ns i = Some (r, e)"
  shows "r = classWord (cpuBlockClass ns b (- 1) (unat i))"
proof -
  obtain node where rd: "storageRead ns i = Some node"
    using assms by (auto simp: queryBlockLeaf_def split: option.splits)
  have node: "u32_at ns (unat i) = node" using storageRead_Some[OF rd] by simp
  have c: "cpuBlockClass ns b (- 1) (unat i)
             = (if node = SOLID_LEAF_MARKER then BlockSolid
                else BlockLeaf (unat (node AND 0x00FFFFFF)))"
    by (subst cpuBlockClass.simps) (simp add: node Let_def)
  show ?thesis
    using assms unfolding c
    by (auto simp: queryBlockLeaf_def rd Let_def classWord_def split: if_splits)
qed

lemma int_pred: "0 < n \<Longrightarrow> int (n - 1) = int n - 1"
  by (cases n) simp_all

lemma gpu_loop_class:
  assumes "queryBlockLoop ns (word_of_int bX, word_of_int bY, word_of_int bZ) level idx
             = Some (r, e)"
  shows "r = classWord (cpuBlockClass ns (bX, bY, bZ) (int (unat level)) (unat idx))"
  using assms
proof (induction "unat level" arbitrary: level idx rule: less_induct)
  case less
  note q = less.prems
  obtain node where rd: "storageRead ns idx = Some node"
    using q by (subst (asm) queryBlockLoop.simps) (auto split: option.splits)
  have node: "u32_at ns (unat idx) = node" using storageRead_Some[OF rd] by simp
  let ?o = "stepOctant (int (unat level)) (bX, bY, bZ)"
  let ?child = "stepChild node ?o"
  note step = queryBlockLoop_step[OF rd, of bX bY bZ level]
  have cs: "cpuBlockClass ns (bX, bY, bZ) (int (unat level)) (unat idx) =
     (if node = SOLID_LEAF_MARKER then BlockSolid
      else if drop_bit 24 node AND 0xFF = 0 then BlockLeaf (unat (node AND 0x00FFFFFF))
      else if (drop_bit 24 node AND 0xFF) AND push_bit ?o 1 = 0 then BlockEmpty
      else cpuBlockClass ns (bX, bY, bZ) (int (unat level) - 1) ?child)"
    by (subst cpuBlockClass.simps) (simp add: node Let_def)
  consider (solid) "node = SOLID_LEAF_MARKER"
    | (leaf) "node \<noteq> SOLID_LEAF_MARKER" "drop_bit 24 node AND 0xFF = 0"
    | (empty) "node \<noteq> SOLID_LEAF_MARKER" "drop_bit 24 node AND 0xFF \<noteq> 0"
        "(drop_bit 24 node AND 0xFF) AND push_bit ?o 1 = 0"
    | (last) "node \<noteq> SOLID_LEAF_MARKER" "drop_bit 24 node AND 0xFF \<noteq> 0"
        "(drop_bit 24 node AND 0xFF) AND push_bit ?o 1 \<noteq> 0" "level = 0"
    | (down) "node \<noteq> SOLID_LEAF_MARKER" "drop_bit 24 node AND 0xFF \<noteq> 0"
        "(drop_bit 24 node AND 0xFF) AND push_bit ?o 1 \<noteq> 0" "level \<noteq> 0"
    by blast
  then show ?case
  proof cases
    case solid
    have "r = 1" using q solid unfolding step by simp
    then show ?thesis unfolding cs using solid by (simp add: classWord_def)
  next
    case leaf
    have "r = 2 + (node AND 0x00FFFFFF)" using q leaf unfolding step by simp
    then show ?thesis unfolding cs using leaf by (simp add: classWord_def)
  next
    case empty
    have "r = 0" using q empty unfolding step by simp
    then show ?thesis unfolding cs using empty by (simp add: classWord_def)
  next
    case last
    have ql: "queryBlockLeaf ns (word_of_nat ?child) = Some (r, e)"
      using q last unfolding step by simp
    from gpu_leaf_class[OF ql, of "(bX, bY, bZ)"]
    have "r = classWord (cpuBlockClass ns (bX, bY, bZ) (- 1) ?child)"
      by (simp only: unat_stepChild)
    then show ?thesis unfolding cs using last by simp
  next
    case down
    have lt: "unat (level - 1) < unat level"
      using down by (simp add: unat_minus_one unat_gt_0)
    have m: "unat (level - 1) = unat level - 1"
      using down by (simp add: unat_minus_one)
    have u: "0 < unat level" using down by (simp add: unat_gt_0)
    have pred: "int (unat (level - 1)) = int (unat level) - 1"
      unfolding m by (rule int_pred[OF u])
    have q': "queryBlockLoop ns (word_of_int bX, word_of_int bY, word_of_int bZ) (level - 1)
                (word_of_nat ?child) = Some (r, e)"
      using q down unfolding step by simp
    from less.hyps[OF lt q']
    have "r = classWord (cpuBlockClass ns (bX, bY, bZ) (int (unat level) - 1) ?child)"
      by (simp only: pred unat_stepChild)
    then show ?thesis unfolding cs using down by simp
  qed
qed

lemma drop_bit_and_1: "(drop_bit n (w::u32) AND 1 = 1) = bit w n"
  by (simp add: and_one_eq bit_iff_odd_drop_bit odd_iff_mod_2_eq_one)

lemma and_exp_eq_0: "((a::u32) AND 2 ^ n = 0) = (\<not> bit a n)"
  by (rule and_exp_eq_0_iff_not_bit)

lemma and_3_mod: "(x::int) AND 3 = x mod 4"
proof -
  have "(3::int) = mask 2" by (simp add: mask_eq_exp_minus_1)
  then have "x AND 3 = take_bit 2 x" by (simp only: take_bit_eq_mask)
  then show ?thesis by (simp add: take_bit_eq_mod)
qed

lemma local_voxel:
  assumes "0 \<le> v" "v < 4"
  shows "unat ((word_of_int (4 * B + v) :: u32) AND 3) = nat v"
proof -
  have "(4 * B + v) mod 4 = v" using assms by simp
  then show ?thesis by (simp only: local3 and_3_mod)
qed

lemma gpu_leaf_voxel:
  assumes k: "k < 2 ^ 24"
    and v: "0 \<le> vx" "vx < 4" "0 \<le> vy" "vy < 4" "0 \<le> vz" "vz < 4"
    and s: "blockVoxelSolid ld (2 + word_of_nat k)
              (word_of_int vx) (word_of_int vy) (word_of_int vz) = Some s"
  shows "s = checkLeafByIndex ld (word_of_nat k) (4 * bX + vx) (4 * bY + vy) (4 * bZ + vz)"
proof -
  define n where "n = nat vz * 16 + nat vy * 4 + nat vx"
  have n64: "n < 64" unfolding n_def using v by simp
  have bi: "(word_of_int vz :: u32) * 16 + word_of_int vy * 4 + word_of_int vx = word_of_nat n"
    unfolding n_def using v by simp
  have un: "unat (word_of_nat n :: u32) = n" using n64 by (simp add: unat_of_nat)
  have lt: "((word_of_nat n :: u32) < 32) = (n < 32)"
    using un by (simp add: word_less_nat_alt)
  have r2: "unat (2 + word_of_nat k :: u32) = 2 + k"
  proof -
    have "(2 + word_of_nat k :: u32) = word_of_nat (2 + k)" by simp
    moreover have "2 + k < 2 ^ 32" using k by simp
    ultimately show ?thesis by (simp only: unat_of_nat) simp
  qed
  have r0: "(2 + word_of_nat k :: u32) \<noteq> 0" and r1: "(2 + word_of_nat k :: u32) \<noteq> 1"
    using r2 by (auto simp only: word_unat_eq_iff) simp_all
  have li: "(2 + word_of_nat k :: u32) - 2 = word_of_nat k" by simp
  have i0: "unat ((word_of_nat k :: u32) * 2) = k * 2"
  proof -
    have "((word_of_nat k :: u32) * 2) = word_of_nat (k * 2)" by simp
    moreover have "k * 2 < 2 ^ 32" using k by simp
    ultimately show ?thesis by (simp only: unat_of_nat) simp
  qed
  have i1: "unat ((word_of_nat k :: u32) * 2 + 1) = k * 2 + 1"
  proof -
    have "((word_of_nat k :: u32) * 2 + 1) = word_of_nat (k * 2 + 1)" by simp
    moreover have "k * 2 + 1 < 2 ^ 32" using k by simp
    ultimately show ?thesis by (simp only: unat_of_nat) simp
  qed
  have kk: "unat ((word_of_nat k :: u32) AND 0x00FFFFFF) = k"
    unfolding low24 using k by (simp add: unsigned_take_bit_eq unat_of_nat take_bit_nat_eq_self)
  obtain lo hi where lo: "storageRead ld (word_of_nat k * 2) = Some lo"
      and hi: "storageRead ld (word_of_nat k * 2 + 1) = Some hi"
    using s r0 r1 unfolding blockVoxelSolid_def Let_def li
    by (auto split: option.splits if_splits)
  have lo': "u32_at ld (k * 2) = lo" using storageRead_Some[OF lo] by (simp add: i0)
  have hi': "u32_at ld (k * 2 + 1) = hi" using storageRead_Some[OF hi] by (simp add: i1)
  have c: "checkLeafByIndex ld (word_of_nat k) (4 * bX + vx) (4 * bY + vy) (4 * bZ + vz)
             = (if n < 32 then bit lo n else bit hi (n - 32))"
    unfolding checkLeafByIndex_def Let_def kk local_voxel[OF v(1,2)] local_voxel[OF v(3,4)]
      local_voxel[OF v(5,6)] drop_bit_and_1 lo' hi' n_def ..
  have g: "s = (if n < 32 then bit lo n else bit hi (n - 32))"
  proof (cases "n < 32")
    case True
    then have "n mod 32 = n" by simp
    then show ?thesis
      using s r0 r1 True unfolding blockVoxelSolid_def Let_def li lo hi bi
      by (simp add: lt un and_exp_eq_0)
  next
    case False
    then have "(word_of_nat n :: u32) - 32 = word_of_nat (n - 32)" by simp
    moreover have "n - 32 < 2 ^ 32" using n64 by simp
    ultimately have "unat ((word_of_nat n :: u32) - 32) = n - 32"
      by (simp only: unat_of_nat) simp
    moreover have "(n - 32) mod 32 = n - 32" using n64 False by simp
    ultimately show ?thesis
      using s r0 r1 False unfolding blockVoxelSolid_def Let_def li lo hi bi
      by (simp add: lt un and_exp_eq_0)
  qed
  show ?thesis unfolding g c ..
qed


lemma block_voxel_range:
  assumes "0 \<le> (B::int)" "B < N div 4" "0 \<le> (v::int)" "v < 4"
  shows "0 \<le> 4 * B + v \<and> 4 * B + v < N \<and> (4 * B + v) div 4 = B"
proof -
  have "4 * B + v < N" using assms(2,4) by presburger
  moreover have "(4 * B + v) div 4 = B" using assms(3,4) by simp
  ultimately show ?thesis using assms(1,3) by simp
qed

lemma class_voxel:
  assumes v: "0 \<le> vx" "vx < 4" "0 \<le> vy" "vy < 4" "0 \<le> vz" "vz < 4"
    and s: "blockVoxelSolid ld (classWord cls)
              (word_of_int vx) (word_of_int vy) (word_of_int vz) = Some s"
    and k: "\<And>k. cls = BlockLeaf k \<Longrightarrow> k < 2 ^ 24"
  shows "s = classVoxelSolid ld cls (4 * bX + vx) (4 * bY + vy) (4 * bZ + vz)"
proof (cases cls)
  case BlockSolid
  then show ?thesis using s by (simp add: classVoxelSolid_def classWord_def blockVoxelSolid_def)
next
  case BlockEmpty
  then show ?thesis using s by (simp add: classVoxelSolid_def classWord_def blockVoxelSolid_def)
next
  case (BlockLeaf k)
  have s': "blockVoxelSolid ld (2 + word_of_nat k)
              (word_of_int vx) (word_of_int vy) (word_of_int vz) = Some s"
    using s unfolding BlockLeaf classWord_def by (simp only: block_class.case)
  show ?thesis
    unfolding BlockLeaf classVoxelSolid_def block_class.case
    by (rule gpu_leaf_voxel[OF k[OF BlockLeaf] v s'])
qed

lemma depthZero_root_read: "storageRead (nodes depthZeroGrid) 0 = Some 0x01000001"
  by (simp add: storageRead_def depthZeroGrid_def)

lemma depthZero_child_read: "storageRead (nodes depthZeroGrid) 1 = Some 0"
  by (simp add: storageRead_def depthZeroGrid_def)

lemma stepOctant_origin: "stepOctant l (0, 0, 0) = 0"
  by (simp add: stepOctant_def)

lemma depthZero_child: "stepChild 0x01000001 0 = 1"
  by (simp add: stepChild_def popcount_def)

lemma depthZero_queryBlock:
  "queryBlock (nodes depthZeroGrid) (word_of_int (treeDepth depthZeroGrid))
     (word_of_int 0) (word_of_int 0) (word_of_int 0) = Some (2, 0)"
proof -
  have t: "treeDepth depthZeroGrid = 0" by (simp add: depthZeroGrid_def)
  have "queryBlockLoop (nodes depthZeroGrid) (0, 0, 0) (- 1) 0
          = queryBlockLoop (nodes depthZeroGrid) (0, 0, 0) (- 2) 1"
    using queryBlockLoop_step[OF depthZero_root_read, of 0 0 0 "- 1"]
    by (simp add: stepOctant_origin depthZero_child SOLID_LEAF_MARKER_def)
  also have "\<dots> = Some (2, 0)"
    using queryBlockLoop_step[OF depthZero_child_read, of 0 0 0 "- 2"]
    by (simp add: SOLID_LEAF_MARKER_def)
  finally show ?thesis by (simp add: queryBlock_def t)
qed

text \<open>
  Claim C9, amended. Let the leaf size be 4 and let the tree have at least one level
  above the blocks, or let the root word of a tree without such a level be the sentinel
  or a word with child mask 0. For every block inside the grid for which the reads of
  \<^verbatim>\<open>queryBlock\<close> stay inside the node buffer, its result is the classification the
  CPU descent makes for the voxels of that block: 1 exactly when the descent meets the
  solid-leaf sentinel, 0 exactly when it finds the octant missing, and 2 plus the same
  leaf index when it ends in a mixed leaf. For every voxel of the block for which the
  reads of the two mask words stay inside the leaf buffer, the shader's voxel test gives
  what \<^verbatim>\<open>isVoxelSolid\<close> gives.
\<close>

theorem gpu_block_query_agrees_with_cpu:
  assumes ls: "leafSize c = 4"
    and d: "(1 \<le> treeDepth c \<and> treeDepth c < 2 ^ 32) \<or>
            (treeDepth c = 0 \<and>
             (u32_at (nodes c) 0 = SOLID_LEAF_MARKER \<or>
              drop_bit 24 (u32_at (nodes c) 0) AND 0xFF = 0))"
    and bx: "0 \<le> bX" "bX < numVoxelsX c div 4"
    and "by": "0 \<le> bY" "bY < numVoxelsY c div 4"
    and bz: "0 \<le> bZ" "bZ < numVoxelsZ c div 4"
    and v: "0 \<le> vx" "vx < 4" "0 \<le> vy" "vy < 4" "0 \<le> vz" "vz < 4"
    and q: "queryBlock (nodes c) (word_of_int (treeDepth c))
              (word_of_int bX) (word_of_int bY) (word_of_int bZ) = Some (r, e)"
    and s: "blockVoxelSolid (leafData c) r
              (word_of_int vx) (word_of_int vy) (word_of_int vz) = Some s"
  shows "(case cpuBlockClass (nodes c) (bX, bY, bZ) (treeDepth c - 1) 0 of
            BlockSolid \<Rightarrow> r = 1
          | BlockEmpty \<Rightarrow> r = 0
          | BlockLeaf k \<Rightarrow> r = 2 + word_of_nat k \<and> k < 2 ^ 24) \<and>
         s = isVoxelSolid c (4 * bX + vx) (4 * bY + vy) (4 * bZ + vz)"
proof -
  let ?ns = "nodes c"
  let ?b = "(bX, bY, bZ)"
  let ?lv = "word_of_int (treeDepth c) - 1 :: u32"
  let ?cls = "cpuBlockClass ?ns ?b (treeDepth c - 1) 0"
  have q': "queryBlockLoop ?ns (word_of_int bX, word_of_int bY, word_of_int bZ) ?lv 0
              = Some (r, e)"
    using q unfolding queryBlock_def .
  from gpu_loop_class[OF q']
  have r: "r = classWord (cpuBlockClass ?ns ?b (int (unat ?lv)) 0)" by simp
  have same: "cpuBlockClass ?ns ?b (int (unat ?lv)) 0 = ?cls"
    using d
  proof
    assume a: "1 \<le> treeDepth c \<and> treeDepth c < 2 ^ 32"
    have "?lv = word_of_int (treeDepth c - 1)" by simp
    moreover have "0 \<le> treeDepth c - 1" "treeDepth c - 1 < 2 ^ 32" using a by simp_all
    ultimately have "int (unat ?lv) = treeDepth c - 1"
      by (simp only: unat_eq_nat_uint uint_word_of_int) (simp add: take_bit_int_eq_self)
    then show ?thesis by (simp only:)
  next
    assume a: "treeDepth c = 0 \<and>
             (u32_at (nodes c) 0 = SOLID_LEAF_MARKER \<or>
              drop_bit 24 (u32_at (nodes c) 0) AND 0xFF = 0)"
    then have l: "u32_at ?ns 0 = SOLID_LEAF_MARKER \<or> drop_bit 24 (u32_at ?ns 0) AND 0xFF = 0"
      by blast
    have t: "treeDepth c - 1 = - 1" using a by simp
    show ?thesis unfolding t root_leaf_class[OF l, of ?b "int (unat ?lv)"] ..
  qed
  have rc: "r = classWord ?cls" using r unfolding same .
  have kb: "\<And>k. ?cls = BlockLeaf k \<Longrightarrow> k < 2 ^ 24"
    by (rule cpuBlockClass_leaf_bound)
  have first: "(case ?cls of
            BlockSolid \<Rightarrow> r = 1
          | BlockEmpty \<Rightarrow> r = 0
          | BlockLeaf k \<Rightarrow> r = 2 + word_of_nat k \<and> k < 2 ^ 24)"
    using rc kb by (cases ?cls) (simp_all add: classWord_def)
  have ne: "nodes c \<noteq> []"
    using q' by (subst (asm) queryBlockLoop.simps) (auto simp: storageRead_def split: if_splits)
  note X = block_voxel_range[OF bx v(1,2)]
  note Y = block_voxel_range[OF "by" v(3,4)]
  note Z = block_voxel_range[OF bz v(5,6)]
  have iv: "isVoxelSolid c (4 * bX + vx) (4 * bY + vy) (4 * bZ + vz)
              = traverse ?ns (leafData c) ?b (4 * bX + vx, 4 * bY + vy, 4 * bZ + vz)
                  (treeDepth c - 1) 0"
    using ne X Y Z by (simp add: isVoxelSolid_def blockCoord_def ls)
  have s': "blockVoxelSolid (leafData c) (classWord ?cls)
              (word_of_int vx) (word_of_int vy) (word_of_int vz) = Some s"
    using s unfolding rc .
  have second: "s = isVoxelSolid c (4 * bX + vx) (4 * bY + vy) (4 * bZ + vz)"
    unfolding iv traverse_class by (rule class_voxel[OF v s' kb])
  show ?thesis using first second by (rule conjI)
qed

theorem gpu_block_query_agrees_with_cpu_witness:
  "leafSize exampleGrid = 4 \<and> 1 \<le> treeDepth exampleGrid \<and>
   queryBlock (nodes exampleGrid) (word_of_int (treeDepth exampleGrid))
     (word_of_int 1) (word_of_int 0) (word_of_int 0) = Some (2, 0) \<and>
   blockVoxelSolid (leafData exampleGrid) 2
     (word_of_int 3) (word_of_int 3) (word_of_int 3) = Some True \<and>
   cpuBlockClass (nodes exampleGrid) (1, 0, 0) (treeDepth exampleGrid - 1) 0 = BlockLeaf 0 \<and>
   isVoxelSolid exampleGrid 7 3 3"
proof -
  have ls: "leafSize exampleGrid = 4" by (simp add: exampleGrid_def)
  have d1: "1 \<le> treeDepth exampleGrid" by (simp add: exampleGrid_def)
  have d: "(1 \<le> treeDepth exampleGrid \<and> treeDepth exampleGrid < 2 ^ 32) \<or>
           (treeDepth exampleGrid = 0 \<and>
            (u32_at (nodes exampleGrid) 0 = SOLID_LEAF_MARKER \<or>
             drop_bit 24 (u32_at (nodes exampleGrid) 0) AND 0xFF = 0))"
    by (simp add: exampleGrid_def)
  have b: "(0::int) \<le> 1" "1 < numVoxelsX exampleGrid div 4"
    "(0::int) \<le> 0" "0 < numVoxelsY exampleGrid div 4"
    "(0::int) \<le> 0" "0 < numVoxelsZ exampleGrid div 4"
    by (simp_all add: exampleGrid_def)
  have v: "(0::int) \<le> 3" "(3::int) < 4" by simp_all
  have q: "queryBlock (nodes exampleGrid) (word_of_int (treeDepth exampleGrid))
             (word_of_int 1) (word_of_int 0) (word_of_int 0) = Some (2, 0)"
    by code_simp
  have s: "blockVoxelSolid (leafData exampleGrid) 2
             (word_of_int 3) (word_of_int 3) (word_of_int 3) = Some True"
    by code_simp
  have c: "cpuBlockClass (nodes exampleGrid) (1, 0, 0) (treeDepth exampleGrid - 1) 0
             = BlockLeaf 0"
    by code_simp
  show ?thesis
    using gpu_block_query_agrees_with_cpu[OF ls d b v v v q s] ls d1 q s c
    by simp
qed

text \<open>
  The claim as stated fails on a tree without a level above the blocks whose root word
  has a child mask. The loop of \<^verbatim>\<open>queryBlock\<close> starts at \<^verbatim>\<open>depth - 1u\<close>, which
  wraps, and always runs once: it follows the root to node 1 and reports leaf 0, whose
  voxel (0, 0, 0) is empty. The loop of \<^verbatim>\<open>isVoxelSolid\<close> does not run: it reads the
  root as leaf 1, whose voxel (0, 0, 0) is solid.
\<close>

theorem depth_zero_block_query_counterexample:
  "queryBlock (nodes depthZeroGrid) (word_of_int (treeDepth depthZeroGrid))
     (word_of_int 0) (word_of_int 0) (word_of_int 0) = Some (2, 0) \<and>
   blockVoxelSolid (leafData depthZeroGrid) 2
     (word_of_int 0) (word_of_int 0) (word_of_int 0) = Some False \<and>
   cpuBlockClass (nodes depthZeroGrid) (0, 0, 0) (treeDepth depthZeroGrid - 1) 0
     = BlockLeaf 1 \<and>
   isVoxelSolid depthZeroGrid 0 0 0"
proof -
  have v: "blockVoxelSolid (leafData depthZeroGrid) 2
             (word_of_int 0) (word_of_int 0) (word_of_int 0) = Some False"
    by code_simp
  have c: "cpuBlockClass (nodes depthZeroGrid) (0, 0, 0) (treeDepth depthZeroGrid - 1) 0
             = BlockLeaf 1"
    by code_simp
  have i: "isVoxelSolid depthZeroGrid 0 0 0" by code_simp
  show ?thesis using depthZero_queryBlock v c i by (simp only: simp_thms)
qed

end
